theory Spec2Isabelle
  imports Complex_Main
begin

section \<open>JavaScript numbers\<close>

text \<open>
  A JavaScript number is an IEEE double.  The code verified here never does arithmetic on
  the numbers it handles: it compares them with \<^verbatim>\<open>===\<close> and \<^verbatim>\<open>!==\<close>,
  asks for their \<^verbatim>\<open>typeof\<close>, prints and parses them.  A finite double is therefore
  modelled by the rational it denotes (\<^verbatim>\<open>+0\<close> and \<^verbatim>\<open>-0\<close>, which \<^verbatim>\<open>===\<close> cannot tell
  apart, are the one value \<open>Fin 0\<close>), next to the three special values.
\<close>

datatype jsnum = Fin rat | NaN | PosInf | NegInf

text \<open>\<^verbatim>\<open>a === b\<close> on two numbers: \<^verbatim>\<open>NaN\<close> is not equal to anything, itself included.\<close>

fun num_strict_eq :: "jsnum \<Rightarrow> jsnum \<Rightarrow> bool" where
  "num_strict_eq NaN b = False"
| "num_strict_eq a NaN = False"
| "num_strict_eq a b = (a = b)"

datatype js_error = TypeError | Error string | SyntaxError

section \<open>tracked-controls.js: the button and axis state machine\<close>

subsection \<open>Data\<close>

text \<open>
  \<^verbatim>\<open>{pressed: false, touched: false, value: 0}\<close>: the shape of a stored button state and of
  a \<^verbatim>\<open>GamepadButton\<close> of the snapshot (the field \<^verbatim>\<open>value\<close> is \<open>val\<close> here).
\<close>

record button_state =
  pressed :: bool
  touched :: bool
  val :: jsnum

text \<open>
  \<^verbatim>\<open>this.buttonEventDetails[id] = {id: id, state: this.buttonStates[id]}\<close>.  The field
  \<^verbatim>\<open>state\<close> is a reference to a state object, not a copy.  A state object is created
  only by \<^verbatim>\<open>updateButtons\<close>, under \<^verbatim>\<open>if (!this.buttonStates[id])\<close>, and an object is
  never falsy: each key of \<^verbatim>\<open>buttonStates\<close> holds one object for the component's life, and
  the key identifies the object.  The reference is modelled by that key.
\<close>

record button_detail =
  detail_id :: nat
  detail_state :: nat

text \<open>
  What a listener reads from the detail object of an event at the moment \<^verbatim>\<open>el.emit\<close> runs:
  nothing (the detail was \<^verbatim>\<open>undefined\<close>), a button detail with the state its reference
  then holds, or the axis detail \<^verbatim>\<open>{axis: this.axis, changed: this.changedAxes}\<close>, whose two
  arrays are the component's own (they are only ever changed in place).
\<close>

datatype detail =
    NoDetail
  | ButtonDetail nat "button_state option"
  | AxisDetail "jsnum list" "bool list"

record gamepad =
  buttons :: "button_state list"
  axes :: "jsnum list"

text \<open>A controller: its \<^verbatim>\<open>hand\<close> (an \<^verbatim>\<open>XRHand\<close>, when it is a tracked hand), its grip
  space and its gamepad.  Spaces and hands are opaque handles.\<close>

record controller =
  hand :: "nat option"
  gripSpace :: nat
  gamepad :: "gamepad option"

record pose =
  transform_matrix :: "jsnum list"

record object3D =
  visible :: bool
  matrix_elements :: "jsnum list"
  position :: "jsnum list"
  rotation :: "jsnum list"
  scale :: "jsnum list"

text \<open>
  The component and what it reads of its surroundings: \<^verbatim>\<open>this.data.autoHide\<close>,
  \<^verbatim>\<open>this.controller\<close>, \<^verbatim>\<open>sceneEl.frame\<close> (a frame is its \<^verbatim>\<open>getPose\<close>),
  \<^verbatim>\<open>this.system.referenceSpace\<close>, \<^verbatim>\<open>this.pose\<close>, \<^verbatim>\<open>this.el.object3D\<close>, the two
  tables of \<^verbatim>\<open>init\<close>, the two arrays of \<^verbatim>\<open>init\<close>, and the events \<^verbatim>\<open>this.el.emit\<close> has
  sent, oldest first.
\<close>

record component =
  autoHide :: bool
  controller :: "controller option"
  frame :: "(nat \<Rightarrow> nat \<Rightarrow> pose option) option"
  referenceSpace :: "nat option"
  pose :: "pose option"
  object3D :: object3D
  buttonStates :: "nat \<rightharpoonup> button_state"
  buttonEventDetails :: "nat \<rightharpoonup> button_detail"
  axis :: "jsnum list"
  changedAxes :: "bool list"
  emitted :: "(string \<times> detail) list"

definition AXISMOVE :: string where "AXISMOVE = ''axismove''"
definition BUTTONCHANGED :: string where "BUTTONCHANGED = ''buttonchanged''"
definition BUTTONDOWN :: string where "BUTTONDOWN = ''buttondown''"
definition BUTTONUP :: string where "BUTTONUP = ''buttonup''"
definition TOUCHSTART :: string where "TOUCHSTART = ''touchstart''"
definition TOUCHEND :: string where "TOUCHEND = ''touchend''"

text \<open>\<^verbatim>\<open>this.el.emit(name, detail, false)\<close>.\<close>

definition emit :: "string \<Rightarrow> detail \<Rightarrow> component \<Rightarrow> component" where
  "emit name d s = s\<lparr>emitted := emitted s @ [(name, d)]\<rparr>"

text \<open>The value of \<^verbatim>\<open>this.buttonEventDetails[id]\<close>, as a listener reads it now.\<close>

definition button_event_detail :: "component \<Rightarrow> nat \<Rightarrow> detail" where
  "button_event_detail s i =
     (case buttonEventDetails s i of
        None \<Rightarrow> NoDetail
      | Some d \<Rightarrow> ButtonDetail (detail_id d) (buttonStates s (detail_state d)))"

subsection \<open>The three checks of a button\<close>

text \<open>
  Each check reads \<^verbatim>\<open>this.buttonStates[id]\<close> and then a field of it: on a key that has
  no state object the field access throws a \<^verbatim>\<open>TypeError\<close>.  Each returns whether the
  field changed, with the component as it has left it.
\<close>

definition handlePress :: "nat \<Rightarrow> button_state \<Rightarrow> component \<Rightarrow> js_error + bool \<times> component" where
  "handlePress i buttonState s =
     (case buttonStates s i of
        None \<Rightarrow> Inl TypeError
      | Some previousButtonState \<Rightarrow>
          if pressed buttonState = pressed previousButtonState then Inr (False, s)
          else
            let evtName = (if pressed buttonState then BUTTONDOWN else BUTTONUP);
                s1 = emit evtName (button_event_detail s i) s
            in Inr (True, s1\<lparr>buttonStates :=
                 (buttonStates s1)(i \<mapsto> previousButtonState\<lparr>pressed := pressed buttonState\<rparr>)\<rparr>))"

definition handleTouch :: "nat \<Rightarrow> button_state \<Rightarrow> component \<Rightarrow> js_error + bool \<times> component" where
  "handleTouch i buttonState s =
     (case buttonStates s i of
        None \<Rightarrow> Inl TypeError
      | Some previousButtonState \<Rightarrow>
          if touched buttonState = touched previousButtonState then Inr (False, s)
          else
            let evtName = (if touched buttonState then TOUCHSTART else TOUCHEND);
                s1 = emit evtName (button_event_detail s i) s
            in Inr (True, s1\<lparr>buttonStates :=
                 (buttonStates s1)(i \<mapsto> previousButtonState\<lparr>touched := touched buttonState\<rparr>)\<rparr>))"

definition handleValue :: "nat \<Rightarrow> button_state \<Rightarrow> component \<Rightarrow> js_error + bool \<times> component" where
  "handleValue i buttonState s =
     (case buttonStates s i of
        None \<Rightarrow> Inl TypeError
      | Some previousButtonState \<Rightarrow>
          if num_strict_eq (val buttonState) (val previousButtonState) then Inr (False, s)
          else Inr (True, s\<lparr>buttonStates :=
                 (buttonStates s)(i \<mapsto> previousButtonState\<lparr>val := val buttonState\<rparr>)\<rparr>))"

text \<open>
  \<^verbatim>\<open>changed = handlePress(..) | handleTouch(..) | handleValue(..)\<close>: the bitwise or evaluates
  its three operands left to right, whatever the earlier ones returned, and is 0 only when
  all three are \<^verbatim>\<open>false\<close>.  An operand that throws ends the call.
\<close>

definition handleButton :: "nat \<Rightarrow> button_state \<Rightarrow> component \<Rightarrow> js_error + bool \<times> component" where
  "handleButton i buttonState s =
     (case handlePress i buttonState s of
        Inl e \<Rightarrow> Inl e
      | Inr (c1, s1) \<Rightarrow>
     (case handleTouch i buttonState s1 of
        Inl e \<Rightarrow> Inl e
      | Inr (c2, s2) \<Rightarrow>
     (case handleValue i buttonState s2 of
        Inl e \<Rightarrow> Inl e
      | Inr (c3, s3) \<Rightarrow>
          let changed = (c1 \<or> c2 \<or> c3) in
          if \<not> changed then Inr (False, s3)
          else Inr (True, emit BUTTONCHANGED (button_event_detail s3 i) s3))))"

subsection \<open>The axes\<close>

text \<open>\<^verbatim>\<open>previousAxis[i] !== controllerAxes[i]\<close>: past the end of \<^verbatim>\<open>previousAxis\<close> the left
  side is \<^verbatim>\<open>undefined\<close>, which differs from every number.\<close>

definition axis_differs :: "jsnum list \<Rightarrow> jsnum list \<Rightarrow> nat \<Rightarrow> bool" where
  "axis_differs previousAxis controllerAxes i =
     (if i < length previousAxis then \<not> num_strict_eq (previousAxis ! i) (controllerAxes ! i)
      else True)"

text \<open>
  The first loop of \<^verbatim>\<open>handleAxes\<close>, from index \<open>i\<close> on: it pushes one flag for each
  element of \<^verbatim>\<open>controllerAxes\<close> and raises \<^verbatim>\<open>changed\<close> when the flag it has just pushed
  (\<^verbatim>\<open>changedAxes[i]\<close>) is set.  The array \<^verbatim>\<open>changedAxes\<close> is \<open>flags\<close> here.
\<close>

function compare_axes :: "jsnum list \<Rightarrow> jsnum list \<Rightarrow> nat \<Rightarrow> bool list \<times> bool \<Rightarrow> bool list \<times> bool" where
  "compare_axes previousAxis controllerAxes i (flags, changed) =
     (if i < length controllerAxes then
        let flags' = flags @ [axis_differs previousAxis controllerAxes i];
            changed' = (if i < length flags' \<and> flags' ! i then True else changed)
        in compare_axes previousAxis controllerAxes (i + 1) (flags', changed')
      else (flags, changed))"
  by pat_completeness auto
termination
  by (relation "measure (\<lambda>(p, c, i, a). length c - i)") auto

declare compare_axes.simps [simp del]

text \<open>The second loop: \<^verbatim>\<open>this.axis.push(controllerAxes[i])\<close> for each index from \<open>i\<close> on.\<close>

function push_axes :: "jsnum list \<Rightarrow> nat \<Rightarrow> jsnum list \<Rightarrow> jsnum list" where
  "push_axes controllerAxes i ax =
     (if i < length controllerAxes then push_axes controllerAxes (i + 1) (ax @ [controllerAxes ! i])
      else ax)"
  by pat_completeness auto
termination
  by (relation "measure (\<lambda>(c, i, a). length c - i)") auto

declare push_axes.simps [simp del]

text \<open>
  \<^verbatim>\<open>handleAxes\<close>.  \<^verbatim>\<open>this.controller.gamepad.axes\<close> throws when there is no controller or
  no gamepad.  \<^verbatim>\<open>splice(0, length)\<close> empties an array in place.
\<close>

definition handleAxes :: "component \<Rightarrow> js_error + bool \<times> component" where
  "handleAxes s =
     (case controller s of
        None \<Rightarrow> Inl TypeError
      | Some c \<Rightarrow>
     (case gamepad c of
        None \<Rightarrow> Inl TypeError
      | Some g \<Rightarrow>
          let controllerAxes = axes g;
              previousAxis = axis s;
              (changedAxes', changed) = compare_axes previousAxis controllerAxes 0 ([], False);
              s1 = s\<lparr>changedAxes := changedAxes'\<rparr>
          in if \<not> changed then Inr (False, s1)
             else
               let s2 = s1\<lparr>axis := push_axes controllerAxes 0 []\<rparr>
               in Inr (True, emit AXISMOVE (AxisDetail (axis s2) (changedAxes s2)) s2)))"

subsection \<open>One pass over the buttons and the axes\<close>

text \<open>The loop of \<^verbatim>\<open>updateButtons\<close> from index \<open>i\<close> on.\<close>

function check_buttons :: "gamepad \<Rightarrow> nat \<Rightarrow> component \<Rightarrow> js_error + component" where
  "check_buttons g i s =
     (if i < length (buttons g) then
        let s1 = (if buttonStates s i = None
                  then s\<lparr>buttonStates := (buttonStates s)(i \<mapsto>
                         \<lparr>pressed = False, touched = False, val = Fin 0\<rparr>)\<rparr>
                  else s);
            s2 = (if buttonEventDetails s1 i = None
                  then s1\<lparr>buttonEventDetails := (buttonEventDetails s1)(i \<mapsto>
                         \<lparr>detail_id = i, detail_state = i\<rparr>)\<rparr>
                  else s1);
            buttonState = buttons g ! i
        in (case handleButton i buttonState s2 of
              Inl e \<Rightarrow> Inl e
            | Inr (_, s3) \<Rightarrow> check_buttons g (i + 1) s3)
      else Inr s)"
  by pat_completeness auto
termination
  by (relation "measure (\<lambda>(g, i, s). length (buttons g) - i)") auto

declare check_buttons.simps [simp del]

definition updateButtons :: "component \<Rightarrow> js_error + component" where
  "updateButtons s =
     (case controller s of
        None \<Rightarrow> Inr s
      | Some c \<Rightarrow>
     (case gamepad c of
        None \<Rightarrow> Inr s
      | Some g \<Rightarrow>
     (case check_buttons g 0 s of
        Inl e \<Rightarrow> Inl e
      | Inr s1 \<Rightarrow>
     (case handleAxes s1 of
        Inl e \<Rightarrow> Inl e
      | Inr (_, s2) \<Rightarrow> Inr s2))))"

subsection \<open>The tick\<close>

text \<open>
  \<^verbatim>\<open>updatePose\<close>.  \<^verbatim>\<open>Matrix4.decompose\<close> belongs to the rendering library, not to this
  repository: it is the parameter \<open>decompose\<close>, from the sixteen elements of a matrix to
  a position, a rotation and a scale.
\<close>

definition updatePose ::
  "(jsnum list \<Rightarrow> jsnum list \<times> jsnum list \<times> jsnum list) \<Rightarrow> component \<Rightarrow> component" where
  "updatePose decompose s =
     (case pose s of
        None \<Rightarrow> s
      | Some p \<Rightarrow>
          let m = transform_matrix p;
              (pos, rot, sc) = decompose m
          in s\<lparr>object3D := (object3D s)\<lparr>matrix_elements := m, position := pos,
                                          rotation := rot, scale := sc\<rparr>\<rparr>)"

definition tick ::
  "(jsnum list \<Rightarrow> jsnum list \<times> jsnum list \<times> jsnum list) \<Rightarrow> component \<Rightarrow> js_error + component" where
  "tick decompose s =
     (let s1 = (if autoHide s
                then s\<lparr>object3D := (object3D s)\<lparr>visible := (controller s \<noteq> None)\<rparr>\<rparr>
                else s)
      in case (controller s1, frame s1, referenceSpace s1) of
           (Some c, Some getPose, Some space) \<Rightarrow>
             if hand c = None then
               updateButtons (updatePose decompose (s1\<lparr>pose := getPose (gripSpace c) space\<rparr>))
             else Inr s1
         | _ \<Rightarrow> Inr s1)"

subsection \<open>The component as \<^verbatim>\<open>init\<close> leaves it\<close>

text \<open>
  \<^verbatim>\<open>init\<close> sets the two tables to \<^verbatim>\<open>{}\<close>, the axis array to \<^verbatim>\<open>[0, 0, 0]\<close> and the
  array of flags to \<^verbatim>\<open>[]\<close>.  The schema's default for \<^verbatim>\<open>autoHide\<close> is \<^verbatim>\<open>true\<close>; the
  object is the entity's; no controller is bound, no frame or reference space is known and
  nothing has been emitted yet.
\<close>

definition init :: "object3D \<Rightarrow> component" where
  "init ob =
     \<lparr>autoHide = True, controller = None, frame = None, referenceSpace = None, pose = None,
      object3D = ob, buttonStates = Map.empty, buttonEventDetails = Map.empty,
      axis = [Fin 0, Fin 0, Fin 0], changedAxes = [], emitted = []\<rparr>"

subsection \<open>Notions used to state the properties\<close>

text \<open>The flags of one axis comparison: one per element of the reading, set where the
  stored element differs from it.\<close>

definition axis_flags :: "jsnum list \<Rightarrow> jsnum list \<Rightarrow> bool list" where
  "axis_flags previousAxis controllerAxes =
     map (axis_differs previousAxis controllerAxes) [0..<length controllerAxes]"

text \<open>The two initialisations at the head of the loop body of \<^verbatim>\<open>updateButtons\<close>.\<close>

definition ensure_button :: "nat \<Rightarrow> component \<Rightarrow> component" where
  "ensure_button i s =
     (let s1 = (if buttonStates s i = None
                then s\<lparr>buttonStates := (buttonStates s)(i \<mapsto>
                       \<lparr>pressed = False, touched = False, val = Fin 0\<rparr>)\<rparr>
                else s)
      in (if buttonEventDetails s1 i = None
          then s1\<lparr>buttonEventDetails := (buttonEventDetails s1)(i \<mapsto>
                 \<lparr>detail_id = i, detail_state = i\<rparr>)\<rparr>
          else s1))"

text \<open>A component with another frame, another pose and another object, and a result
  carried over to it.\<close>

definition with_view ::
  "(nat \<Rightarrow> nat \<Rightarrow> pose option) option \<Rightarrow> pose option \<Rightarrow> object3D \<Rightarrow> component \<Rightarrow> component" where
  "with_view fr p ob s = s\<lparr>frame := fr, pose := p, object3D := ob\<rparr>"

definition lift_view ::
  "(nat \<Rightarrow> nat \<Rightarrow> pose option) option \<Rightarrow> pose option \<Rightarrow> object3D \<Rightarrow>
     js_error + bool \<times> component \<Rightarrow> js_error + bool \<times> component" where
  "lift_view fr p ob r =
     (case r of Inl e \<Rightarrow> Inl e | Inr (c, s) \<Rightarrow> Inr (c, with_view fr p ob s))"

text \<open>The visibility step of \<^verbatim>\<open>tick\<close>: \<^verbatim>\<open>if (autoHide) { visible = !!controller; }\<close>.\<close>

definition auto_hide :: "component \<Rightarrow> component" where
  "auto_hide s =
     (if autoHide s then s\<lparr>object3D := (object3D s)\<lparr>visible := (controller s \<noteq> None)\<rparr>\<rparr> else s)"

section \<open>JavaScript strings and values\<close>

subsection \<open>Strings\<close>

text \<open>
  A JavaScript string is a sequence of UTF-16 code units.  The model has the code units
  below 256 only: a string is a \<^typ>\<open>string\<close>, one \<^typ>\<open>char\<close> for one code unit.
\<close>

text \<open>The white space and line terminators of ECMAScript among these code units: TAB, LF,
  VT, FF, CR, SP and NBSP.\<close>

definition is_space :: "char \<Rightarrow> bool" where
  "is_space c = (c \<in> set [CHR 0x09, CHR 0x0A, CHR 0x0B, CHR 0x0C, CHR 0x0D, CHR 0x20, CHR 0xA0])"

text \<open>\<^verbatim>\<open>String.prototype.trim\<close>.\<close>

definition trim :: "string \<Rightarrow> string" where
  "trim s = rev (dropWhile is_space (rev (dropWhile is_space s)))"

text \<open>\<^verbatim>\<open>s.split(c)\<close> for a separator of one code unit: the segments between the
  separators, the empty ones included; the empty string has one empty segment.\<close>

fun split_on :: "char \<Rightarrow> string \<Rightarrow> string list" where
  "split_on c [] = [[]]"
| "split_on c (x # xs) =
     (if x = c then [] # split_on c xs
      else (case split_on c xs of
              [] \<Rightarrow> [[x]]
            | seg # segs \<Rightarrow> (x # seg) # segs))"

definition is_digit :: "char \<Rightarrow> bool" where
  "is_digit c = (c \<in> set ''0123456789'')"

text \<open>The value of a digit (its place among the ten digits), and the digit of a value
  below ten.\<close>

definition digit_val :: "char \<Rightarrow> nat" where
  "digit_val c = length (takeWhile (\<lambda>x. x \<noteq> c) ''0123456789'')"

definition digit_char :: "nat \<Rightarrow> char" where
  "digit_char d = ''0123456789'' ! d"

text \<open>The value of a sequence of decimal digits, and the decimal digits of a number.\<close>

definition digits_value :: "string \<Rightarrow> nat" where
  "digits_value ds = foldl (\<lambda>a c. 10 * a + digit_val c) 0 ds"

fun digits_of :: "nat \<Rightarrow> string" where
  "digits_of n = (if n < 10 then [digit_char n] else digits_of (n div 10) @ [digit_char (n mod 10)])"

declare digits_of.simps [simp del]

definition int_toString :: "int \<Rightarrow> string" where
  "int_toString n = (if n < 0 then CHR ''-'' # digits_of (nat (- n)) else digits_of (nat n))"

subsection \<open>Values\<close>

text \<open>
  A DOM element, as far as this code looks at it: its \<^verbatim>\<open>tagName\<close>, its attributes
  (\<^verbatim>\<open>getAttribute\<close> gives \<^verbatim>\<open>null\<close> for a missing one) and the string the host converts
  it to (\<^verbatim>\<open>[object HTMLImageElement]\<close>, or the \<^verbatim>\<open>href\<close> of an anchor).
\<close>

record element =
  tagName :: string
  attributes :: "(string \<times> string) list"
  shown :: string

text \<open>
  The values a property can hold.  Arrays, plain objects and elements are objects: each
  carries the identity that \<^verbatim>\<open>===\<close> compares, and its content.  Nothing in
  propertyTypes.js changes an array or an object in place, so the content can stand in the
  value.  An object is its own enumerable properties, as a list of bindings whose first
  binding of a key is the one that counts.  Functions, symbols, cyclic values and
  properties added to an array or an element are outside the model.
\<close>

datatype jsval =
    JUndefined
  | JNull
  | JBool bool
  | JNum jsnum
  | JStr string
  | JArr nat "jsval list"
  | JObj nat "(string \<times> jsval) list"
  | JElem nat element

text \<open>\<^verbatim>\<open>a === b\<close>.\<close>

definition strict_eq :: "jsval \<Rightarrow> jsval \<Rightarrow> bool" where
  "strict_eq a b =
     (case a of
        JUndefined \<Rightarrow> b = JUndefined
      | JNull \<Rightarrow> b = JNull
      | JBool x \<Rightarrow> b = JBool x
      | JNum x \<Rightarrow> (case b of JNum y \<Rightarrow> num_strict_eq x y | _ \<Rightarrow> False)
      | JStr x \<Rightarrow> b = JStr x
      | JArr i _ \<Rightarrow> (case b of JArr j _ \<Rightarrow> i = j | _ \<Rightarrow> False)
      | JObj i _ \<Rightarrow> (case b of JObj j _ \<Rightarrow> i = j | _ \<Rightarrow> False)
      | JElem i _ \<Rightarrow> (case b of JElem j _ \<Rightarrow> i = j | _ \<Rightarrow> False))"

text \<open>\<^verbatim>\<open>typeof v\<close>.\<close>

fun typeof :: "jsval \<Rightarrow> string" where
  "typeof JUndefined = ''undefined''"
| "typeof JNull = ''object''"
| "typeof (JBool _) = ''boolean''"
| "typeof (JNum _) = ''number''"
| "typeof (JStr _) = ''string''"
| "typeof (JArr _ _) = ''object''"
| "typeof (JObj _ _) = ''object''"
| "typeof (JElem _ _) = ''object''"

text \<open>Whether a condition takes the value for true (\<^verbatim>\<open>!!v\<close>).\<close>

fun truthy :: "jsval \<Rightarrow> bool" where
  "truthy JUndefined = False"
| "truthy JNull = False"
| "truthy (JBool b) = b"
| "truthy (JNum n) = (n \<noteq> Fin 0 \<and> n \<noteq> NaN)"
| "truthy (JStr s) = (s \<noteq> [])"
| "truthy (JArr _ _) = True"
| "truthy (JObj _ _) = True"
| "truthy (JElem _ _) = True"

text \<open>\<^verbatim>\<open>Array.isArray(v)\<close>, which is also \<^verbatim>\<open>v instanceof Array\<close> here.\<close>

fun isArray :: "jsval \<Rightarrow> bool" where
  "isArray (JArr _ _) = True"
| "isArray _ = False"

text \<open>
  The world outside the module.  The document answers three queries
  (\<^verbatim>\<open>querySelector\<close> and \<^verbatim>\<open>querySelectorAll\<close> throw on a selector they cannot read).
  The engine prints and rounds the numbers that are not integers of at most 53 bits:
  floating point, which the model leaves to these two functions.  \<open>next_id\<close> is the
  identity the next new array gets, \<open>warnings\<close> what \<^verbatim>\<open>warn\<close> has logged, oldest first.
\<close>

record world =
  getElementById :: "string \<Rightarrow> (nat \<times> element) option"
  querySelector :: "string \<Rightarrow> js_error + (nat \<times> element) option"
  querySelectorAll :: "string \<Rightarrow> js_error + (nat \<times> element) list"
  formatNumber :: "rat \<Rightarrow> string"
  roundNumber :: "rat \<Rightarrow> jsnum"
  next_id :: nat
  warnings :: "string list"

definition warn :: "string \<Rightarrow> world \<Rightarrow> world" where
  "warn msg w = w\<lparr>warnings := warnings w @ [msg]\<rparr>"

text \<open>A new array: \<^verbatim>\<open>[]\<close>, or the result of \<^verbatim>\<open>map\<close> and \<^verbatim>\<open>slice\<close>.\<close>

definition new_array :: "jsval list \<Rightarrow> world \<Rightarrow> jsval \<times> world" where
  "new_array xs w = (JArr (next_id w) xs, w\<lparr>next_id := Suc (next_id w)\<rparr>)"

definition elem_or_null :: "(nat \<times> element) option \<Rightarrow> jsval" where
  "elem_or_null r = (case r of None \<Rightarrow> JNull | Some (a, e) \<Rightarrow> JElem a e)"

subsection \<open>Numbers as strings and strings as numbers\<close>

text \<open>The integers every double represents exactly and prints digit by digit.\<close>

definition is_safe_int :: "rat \<Rightarrow> bool" where
  "is_safe_int q = (q = of_int \<lfloor>q\<rfloor> \<and> \<bar>q\<bar> \<le> 9007199254740992)"

text \<open>\<^verbatim>\<open>Number.prototype.toString\<close> (radix 10).\<close>

definition num_toString :: "world \<Rightarrow> jsnum \<Rightarrow> string" where
  "num_toString w x =
     (case x of
        NaN \<Rightarrow> ''NaN''
      | PosInf \<Rightarrow> ''Infinity''
      | NegInf \<Rightarrow> ''-Infinity''
      | Fin q \<Rightarrow> if is_safe_int q then int_toString \<lfloor>q\<rfloor> else formatNumber w q)"

text \<open>The number a decimal literal of value \<open>q\<close> denotes.\<close>

definition to_num :: "world \<Rightarrow> rat \<Rightarrow> jsnum" where
  "to_num w q = (if is_safe_int q then Fin q else roundNumber w q)"

text \<open>
  The conversion of a value to a string (\<^verbatim>\<open>ToString\<close>), with the \<^verbatim>\<open>join\<close> of an
  array, which prints \<^verbatim>\<open>undefined\<close> and \<^verbatim>\<open>null\<close> elements as the empty string.  An
  array prints as its elements joined by commas, an object as \<^verbatim>\<open>[object Object]\<close>; an
  object with a property \<^verbatim>\<open>toString\<close> of its own cannot be converted, since no value of
  the model is a function.
\<close>

fun ToString :: "world \<Rightarrow> jsval \<Rightarrow> js_error + string"
  and join :: "world \<Rightarrow> string \<Rightarrow> jsval list \<Rightarrow> js_error + string" where
  "ToString w JUndefined = Inr ''undefined''"
| "ToString w JNull = Inr ''null''"
| "ToString w (JBool b) = Inr (if b then ''true'' else ''false'')"
| "ToString w (JNum n) = Inr (num_toString w n)"
| "ToString w (JStr s) = Inr s"
| "ToString w (JArr a xs) = join w '','' xs"
| "ToString w (JObj a ps) =
     (if ''toString'' \<in> set (map fst ps) then Inl TypeError else Inr ''[object Object]'')"
| "ToString w (JElem a e) = Inr (shown e)"
| "join w sep [] = Inr ''''"
| "join w sep [x] = (if x = JUndefined \<or> x = JNull then Inr '''' else ToString w x)"
| "join w sep (x # y # ys) =
     (case (if x = JUndefined \<or> x = JNull then Inr '''' else ToString w x) of
        Inl e \<Rightarrow> Inl e
      | Inr s \<Rightarrow>
          (case join w sep (y # ys) of
             Inl e \<Rightarrow> Inl e
           | Inr r \<Rightarrow> Inr (s @ sep @ r)))"

text \<open>\<^verbatim>\<open>value.toString()\<close>: \<^verbatim>\<open>undefined\<close> and \<^verbatim>\<open>null\<close> have no properties.\<close>

definition toString :: "jsval \<Rightarrow> world \<Rightarrow> js_error + string" where
  "toString v w = (if v = JUndefined \<or> v = JNull then Inl TypeError else ToString w v)"

text \<open>\<^verbatim>\<open>'#' + v\<close> for the result \<open>v\<close> of \<^verbatim>\<open>getAttribute\<close> (a string or \<^verbatim>\<open>null\<close>).\<close>

definition hash_plus :: "jsval \<Rightarrow> string" where
  "hash_plus v = CHR ''#'' # (case v of JStr s \<Rightarrow> s | _ \<Rightarrow> ''null'')"

text \<open>The sign that \<^verbatim>\<open>parseInt\<close> and \<^verbatim>\<open>parseFloat\<close> read first.\<close>

definition read_sign :: "string \<Rightarrow> bool \<times> string" where
  "read_sign s =
     (case s of
        [] \<Rightarrow> (False, [])
      | c # cs \<Rightarrow> if c = CHR ''-'' then (True, cs) else if c = CHR ''+'' then (False, cs)
                 else (False, s))"

definition signed :: "bool \<Rightarrow> rat \<Rightarrow> rat" where
  "signed neg q = (if neg then - q else q)"

text \<open>
  \<^verbatim>\<open>parseInt(v, 10)\<close>: the string of \<open>v\<close>, without leading white space; a sign; the
  longest run of digits, \<^verbatim>\<open>NaN\<close> when it is empty.
\<close>

definition parseInt :: "jsval \<Rightarrow> world \<Rightarrow> js_error + jsnum" where
  "parseInt v w =
     (case ToString w v of
        Inl e \<Rightarrow> Inl e
      | Inr s \<Rightarrow>
          let (neg, r) = read_sign (dropWhile is_space s);
              ds = takeWhile is_digit r
          in Inr (if ds = [] then NaN else to_num w (signed neg (of_nat (digits_value ds)))))"

text \<open>An exponent part: \<^verbatim>\<open>e\<close> or \<^verbatim>\<open>E\<close>, a sign, digits.  Without digits there is none.\<close>

definition read_exponent :: "string \<Rightarrow> int" where
  "read_exponent s =
     (case s of
        [] \<Rightarrow> 0
      | c # cs \<Rightarrow>
          if c = CHR ''e'' \<or> c = CHR ''E'' then
            let (neg, r) = read_sign cs;
                ds = takeWhile is_digit r
            in if ds = [] then 0
               else if neg then - int (digits_value ds) else int (digits_value ds)
          else 0)"

definition pow10 :: "int \<Rightarrow> rat" where
  "pow10 e = (if e < 0 then 1 / 10 ^ nat (- e) else 10 ^ nat e)"

text \<open>
  \<^verbatim>\<open>parseFloat(v)\<close>: the string of \<open>v\<close>, without leading white space; the longest prefix
  that is a decimal literal (a sign, then \<^verbatim>\<open>Infinity\<close>, or digits with an optional
  fraction and exponent, or a fraction with an optional exponent), \<^verbatim>\<open>NaN\<close> when there is
  none.
\<close>

definition parseFloat :: "jsval \<Rightarrow> world \<Rightarrow> js_error + jsnum" where
  "parseFloat v w =
     (case ToString w v of
        Inl e \<Rightarrow> Inl e
      | Inr s \<Rightarrow>
          let (neg, r) = read_sign (dropWhile is_space s) in
          if take 8 r = ''Infinity'' then Inr (if neg then NegInf else PosInf)
          else
            let ip = takeWhile is_digit r;
                r1 = dropWhile is_digit r;
                dotted = (r1 \<noteq> [] \<and> hd r1 = CHR ''.'');
                fp = (if dotted then takeWhile is_digit (tl r1) else []);
                r2 = (if dotted then dropWhile is_digit (tl r1) else r1)
            in if ip = [] \<and> fp = [] then Inr NaN
               else Inr (to_num w (signed neg
                      ((of_nat (digits_value ip) + of_nat (digits_value fp) / 10 ^ length fp)
                         * pow10 (read_exponent r2)))))"

section \<open>propertyTypes.js: the registry of property types\<close>

subsection \<open>Descriptors and registration\<close>

text \<open>
  A function stored as \<^verbatim>\<open>parse\<close> is called with the value, the default and a target;
  it may consult and change the world, and it may throw.  A \<^verbatim>\<open>stringify\<close> reads the
  world; an \<^verbatim>\<open>equals\<close> is a pure test.
\<close>

type_synonym parse_fn = "jsval \<Rightarrow> jsval \<Rightarrow> jsval \<Rightarrow> world \<Rightarrow> (js_error + jsval) \<times> world"
type_synonym stringify_fn = "jsval \<Rightarrow> world \<Rightarrow> js_error + jsval"
type_synonym equals_fn = "jsval \<Rightarrow> jsval \<Rightarrow> bool"

text \<open>The descriptor \<^verbatim>\<open>{default, parse, stringify, equals, isCacheable}\<close> (\<^verbatim>\<open>default\<close> is
  \<open>default_value\<close> here).\<close>

record property_type =
  default_value :: jsval
  parse :: parse_fn
  stringify :: stringify_fn
  equals :: equals_fn
  isCacheable :: bool

text \<open>How a function of propertyTypes.js is called through \<^verbatim>\<open>parse\<close>: one that takes
  the value only ignores the other two arguments.\<close>

definition pure_parse :: "(jsval \<Rightarrow> jsval) \<Rightarrow> parse_fn" where
  "pure_parse f = (\<lambda>v defaultValue target w. (Inr (f v), w))"

definition reading_parse :: "(jsval \<Rightarrow> world \<Rightarrow> js_error + jsval) \<Rightarrow> parse_fn" where
  "reading_parse f = (\<lambda>v defaultValue target w. (f v w, w))"

definition total_parse :: "(jsval \<Rightarrow> world \<Rightarrow> jsval \<times> world) \<Rightarrow> parse_fn" where
  "total_parse f = (\<lambda>v defaultValue target w. (case f v w of (r, w') \<Rightarrow> (Inr r, w')))"

definition unary_parse :: "(jsval \<Rightarrow> world \<Rightarrow> (js_error + jsval) \<times> world) \<Rightarrow> parse_fn" where
  "unary_parse f = (\<lambda>v defaultValue target w. f v w)"

definition defaultParse :: "jsval \<Rightarrow> jsval" where
  "defaultParse v = v"

definition defaultStringify :: stringify_fn where
  "defaultStringify v w =
     (if v = JNull then Inr (JStr ''null'')
      else (case toString v w of Inl e \<Rightarrow> Inl e | Inr s \<Rightarrow> Inr (JStr s)))"

definition defaultEquals :: equals_fn where
  "defaultEquals a b = strict_eq a b"

text \<open>
  \<^verbatim>\<open>propertyTypes\<close> is an object made by \<^verbatim>\<open>{}\<close>: the registry maps the names
  registered so far to their descriptors, and \<^verbatim>\<open>type in propertyTypes\<close> also holds for
  the property names every such object inherits from \<^verbatim>\<open>Object.prototype\<close>.
\<close>

type_synonym registry = "string \<rightharpoonup> property_type"

definition Object_prototype_keys :: "string list" where
  "Object_prototype_keys =
     [''constructor'', ''__defineGetter__'', ''__defineSetter__'', ''hasOwnProperty'',
      ''__lookupGetter__'', ''__lookupSetter__'', ''isPrototypeOf'', ''propertyIsEnumerable'',
      ''toString'', ''valueOf'', ''__proto__'', ''toLocaleString'']"

definition in_registry :: "string \<Rightarrow> registry \<Rightarrow> bool" where
  "in_registry name reg = (reg name \<noteq> None \<or> name \<in> set Object_prototype_keys)"

text \<open>
  \<^verbatim>\<open>registerPropertyType(type, defaultValue, parse, stringify, equals, cacheable)\<close>.  An
  argument left out is \<^verbatim>\<open>undefined\<close>: \<open>None\<close> for a function, \<open>JUndefined\<close> for a
  value.  The result is the error thrown, if any, and the registry after the call.
\<close>

definition registerPropertyType ::
  "string \<Rightarrow> jsval \<Rightarrow> parse_fn option \<Rightarrow> stringify_fn option \<Rightarrow> equals_fn option \<Rightarrow> jsval \<Rightarrow>
     registry \<Rightarrow> js_error option \<times> registry" where
  "registerPropertyType name defaultValue parse_arg stringify_arg equals_arg cacheable reg =
     (if in_registry name reg
      then (Some (Error (''Property type '' @ name @ '' is already registered.'')), reg)
      else (None, reg(name \<mapsto>
              \<lparr>default_value = defaultValue,
               parse = (case parse_arg of None \<Rightarrow> pure_parse defaultParse | Some f \<Rightarrow> f),
               stringify = (case stringify_arg of None \<Rightarrow> defaultStringify | Some f \<Rightarrow> f),
               equals = (case equals_arg of None \<Rightarrow> defaultEquals | Some f \<Rightarrow> f),
               isCacheable = \<not> strict_eq cacheable (JBool False)\<rparr>)))"

subsection \<open>The functions of the built-in types\<close>

definition str_of :: "jsval \<Rightarrow> string" where
  "str_of v = (case v of JStr s \<Rightarrow> s | _ \<Rightarrow> [])"

definition arrayParse :: "jsval \<Rightarrow> world \<Rightarrow> jsval \<times> world" where
  "arrayParse v w =
     (if isArray v then (v, w)
      else if \<not> truthy v \<or> typeof v \<noteq> ''string'' then new_array [] w
      else new_array (map (\<lambda>str. JStr (trim str)) (split_on CHR '','' (str_of v))) w)"

text \<open>\<^verbatim>\<open>value.join(', ')\<close>: only an array has a \<^verbatim>\<open>join\<close>.\<close>

definition arrayStringify :: stringify_fn where
  "arrayStringify v w =
     (case v of
        JArr a xs \<Rightarrow> (case join w '', '' xs of Inl e \<Rightarrow> Inl e | Inr s \<Rightarrow> Inr (JStr s))
      | _ \<Rightarrow> Inl TypeError)"

text \<open>The loop of \<^verbatim>\<open>arrayEquals\<close> over two arrays of one length.\<close>

fun elements_equal :: "jsval list \<Rightarrow> jsval list \<Rightarrow> bool" where
  "elements_equal (x # xs) (y # ys) = (if \<not> strict_eq x y then False else elements_equal xs ys)"
| "elements_equal _ _ = True"

definition arrayEquals :: equals_fn where
  "arrayEquals a b =
     (case (a, b) of
        (JArr _ xs, JArr _ ys) \<Rightarrow>
          if length xs \<noteq> length ys then False else elements_equal xs ys
      | _ \<Rightarrow> strict_eq a b)"

text \<open>
  \<^verbatim>\<open>value.match(/url\((.+)\)/)\<close>, as its first group.  From a place where \<^verbatim>\<open>url(\<close>
  stands, the group is greedy: it runs to the last \<^verbatim>\<open>)\<close> before the end of the line
  (\<^verbatim>\<open>.\<close> matches no line terminator) and has one character at least.  The leftmost place
  with a match wins.
\<close>

definition url_group :: "string \<Rightarrow> string option" where
  "url_group r =
     (case takeWhile (\<lambda>c. c \<noteq> CHR 0x0A \<and> c \<noteq> CHR 0x0D) r of
        [] \<Rightarrow> None
      | c # rest \<Rightarrow>
          if CHR '')'' \<in> set rest
          then Some (c # rev (tl (dropWhile (\<lambda>x. x \<noteq> CHR '')'') (rev rest))))
          else None)"

fun match_url :: "string \<Rightarrow> string option" where
  "match_url [] = None"
| "match_url (c # cs) =
     (if take 4 (c # cs) = ''url('' then
        (case url_group (drop 4 (c # cs)) of
           Some g \<Rightarrow> Some g
         | None \<Rightarrow> match_url cs)
      else match_url cs)"

text \<open>\<^verbatim>\<open>value.getAttribute\<close> read as a condition: it throws on \<^verbatim>\<open>undefined\<close> and
  \<^verbatim>\<open>null\<close>, an element has the method, an object may have a property of that name.\<close>

definition has_getAttribute :: "jsval \<Rightarrow> js_error + bool" where
  "has_getAttribute v =
     (case v of
        JUndefined \<Rightarrow> Inl TypeError
      | JNull \<Rightarrow> Inl TypeError
      | JElem a e \<Rightarrow> Inr True
      | JObj a ps \<Rightarrow> Inr (case map_of ps ''getAttribute'' of None \<Rightarrow> False | Some x \<Rightarrow> truthy x)
      | _ \<Rightarrow> Inr False)"

text \<open>\<^verbatim>\<open>value.getAttribute(name)\<close>: on anything but an element there is no such function to
  call.\<close>

definition getAttribute :: "jsval \<Rightarrow> string \<Rightarrow> js_error + jsval" where
  "getAttribute v name =
     (case v of
        JElem a e \<Rightarrow> Inr (case map_of (attributes e) name of None \<Rightarrow> JNull | Some s \<Rightarrow> JStr s)
      | _ \<Rightarrow> Inl TypeError)"

definition assetParse :: "jsval \<Rightarrow> world \<Rightarrow> jsval \<times> world" where
  "assetParse v w =
     (case v of
        JStr s \<Rightarrow>
          (case match_url s of
             Some g \<Rightarrow> (JStr g, w)
           | None \<Rightarrow>
               if take 1 s = ''#'' then
                 (case getElementById w (drop 1 s) of
                    Some (a, el) \<Rightarrow>
                      if tagName el = ''CANVAS'' \<or> tagName el = ''VIDEO'' \<or> tagName el = ''IMG''
                      then (JElem a el, w)
                      else (case map_of (attributes el) ''src'' of
                              None \<Rightarrow> (JNull, w)
                            | Some src \<Rightarrow> (JStr src, w))
                  | None \<Rightarrow> (JUndefined, warn (''\"'' @ s @ ''\" asset not found.'') w))
               else (JStr s, w))
      | _ \<Rightarrow> (v, w))"

definition assetStringify :: stringify_fn where
  "assetStringify v w =
     (case has_getAttribute v of
        Inl e \<Rightarrow> Inl e
      | Inr True \<Rightarrow>
          (case getAttribute v ''id'' of
             Inl e \<Rightarrow> Inl e
           | Inr i \<Rightarrow>
               if truthy i then
                 (case getAttribute v ''id'' of Inl e \<Rightarrow> Inl e | Inr i' \<Rightarrow> Inr (JStr (hash_plus i')))
               else getAttribute v ''src'')
      | Inr False \<Rightarrow> defaultStringify v w)"

definition boolParse :: "jsval \<Rightarrow> jsval" where
  "boolParse v = JBool (\<not> strict_eq v (JStr ''false'') \<and> \<not> strict_eq v (JBool False))"

definition intParse :: "jsval \<Rightarrow> world \<Rightarrow> js_error + jsval" where
  "intParse v w = (case parseInt v w of Inl e \<Rightarrow> Inl e | Inr n \<Rightarrow> Inr (JNum n))"

definition numberParse :: "jsval \<Rightarrow> world \<Rightarrow> js_error + jsval" where
  "numberParse v w = (case parseFloat v w of Inl e \<Rightarrow> Inl e | Inr n \<Rightarrow> Inr (JNum n))"

text \<open>\<^verbatim>\<open>nonCharRegex.test(value)\<close> for \<^verbatim>\<open>/[,> .[\]:]/\<close>.\<close>

definition nonChar :: "string \<Rightarrow> bool" where
  "nonChar s = (\<exists>c \<in> set s. c \<in> set '',> .[]:'')"

definition selectorParse :: "jsval \<Rightarrow> world \<Rightarrow> js_error + jsval" where
  "selectorParse v w =
     (if \<not> truthy v then Inr JNull
      else (case v of
              JStr s \<Rightarrow>
                if take 1 s = ''#'' \<and> \<not> nonChar s
                then Inr (elem_or_null (getElementById w (drop 1 s)))
                else (case querySelector w s of Inl e \<Rightarrow> Inl e | Inr r \<Rightarrow> Inr (elem_or_null r))
            | _ \<Rightarrow> Inr v))"

definition selectorAllParse :: "jsval \<Rightarrow> world \<Rightarrow> (js_error + jsval) \<times> world" where
  "selectorAllParse v w =
     (if \<not> truthy v then (Inr JNull, w)
      else (case v of
              JStr s \<Rightarrow>
                (case querySelectorAll w s of
                   Inl e \<Rightarrow> (Inl e, w)
                 | Inr els \<Rightarrow>
                     (case new_array (map (\<lambda>(a, el). JElem a el) els) w of
                        (r, w') \<Rightarrow> (Inr r, w')))
            | _ \<Rightarrow> (Inr v, w)))"

definition selectorStringify :: stringify_fn where
  "selectorStringify v w =
     (case has_getAttribute v of
        Inl e \<Rightarrow> Inl e
      | Inr True \<Rightarrow>
          (case getAttribute v ''id'' of Inl e \<Rightarrow> Inl e | Inr i \<Rightarrow> Inr (JStr (hash_plus i)))
      | Inr False \<Rightarrow> defaultStringify v w)"

text \<open>The \<^verbatim>\<open>map\<close> of \<^verbatim>\<open>selectorAllStringify\<close>: it stops at the first element that has no
  \<^verbatim>\<open>getAttribute\<close> to call.\<close>

fun hash_ids :: "jsval list \<Rightarrow> js_error + jsval list" where
  "hash_ids [] = Inr []"
| "hash_ids (x # xs) =
     (case getAttribute x ''id'' of
        Inl e \<Rightarrow> Inl e
      | Inr i \<Rightarrow> (case hash_ids xs of Inl e \<Rightarrow> Inl e | Inr r \<Rightarrow> Inr (JStr (hash_plus i) # r)))"

definition selectorAllStringify :: stringify_fn where
  "selectorAllStringify v w =
     (case v of
        JArr a xs \<Rightarrow>
          (case hash_ids xs of
             Inl e \<Rightarrow> Inl e
           | Inr hs \<Rightarrow> (case join w '', '' hs of Inl e \<Rightarrow> Inl e | Inr s \<Rightarrow> Inr (JStr s)))
      | _ \<Rightarrow> defaultStringify v w)"

definition srcParse :: "jsval \<Rightarrow> world \<Rightarrow> jsval \<times> world" where
  "srcParse v w =
     assetParse v (warn ''`src` property type is deprecated. Use `asset` instead.'' w)"

text \<open>
  The three functions of coordinates.js that the vector types use.  That module is not
  part of the sources verified here: the registry takes them as a parameter.
\<close>

record coordinates =
  coordinates_parse :: parse_fn
  coordinates_stringify :: stringify_fn
  coordinates_equals :: equals_fn

definition vecParse :: "coordinates \<Rightarrow> parse_fn" where
  "vecParse co v defaultValue target = coordinates_parse co v defaultValue target"

subsection \<open>The built-in registrations\<close>

text \<open>The arguments of one call of \<^verbatim>\<open>registerPropertyType\<close>.\<close>

type_synonym registration =
  "string \<times> jsval \<times> parse_fn option \<times> stringify_fn option \<times> equals_fn option \<times> jsval"

text \<open>
  The seventeen calls at the head of the module, in their order.  The four object literals
  among the defaults are the objects 0 to 3.
\<close>

definition builtin_registrations :: "coordinates \<Rightarrow> registration list" where
  "builtin_registrations co =
    [(''audio'', JStr '''', Some (total_parse assetParse), Some assetStringify, None, JUndefined),
     (''array'', JArr 0 [], Some (total_parse arrayParse), Some arrayStringify, Some arrayEquals,
        JUndefined),
     (''asset'', JStr '''', Some (total_parse assetParse), Some assetStringify, None, JUndefined),
     (''boolean'', JBool False, Some (pure_parse boolParse), None, None, JUndefined),
     (''color'', JStr ''#FFF'', None, None, None, JUndefined),
     (''int'', JNum (Fin 0), Some (reading_parse intParse), None, None, JUndefined),
     (''number'', JNum (Fin 0), Some (reading_parse numberParse), None, None, JUndefined),
     (''map'', JStr '''', Some (total_parse assetParse), Some assetStringify, None, JUndefined),
     (''model'', JStr '''', Some (total_parse assetParse), Some assetStringify, None, JUndefined),
     (''selector'', JNull, Some (reading_parse selectorParse), Some selectorStringify,
        Some defaultEquals, JBool False),
     (''selectorAll'', JNull, Some (unary_parse selectorAllParse), Some selectorAllStringify,
        Some arrayEquals, JBool False),
     (''src'', JStr '''', Some (total_parse srcParse), Some assetStringify, None, JUndefined),
     (''string'', JStr '''', None, None, None, JUndefined),
     (''time'', JNum (Fin 0), Some (reading_parse intParse), None, None, JUndefined),
     (''vec2'', JObj 1 [(''x'', JNum (Fin 0)), (''y'', JNum (Fin 0))],
        Some (vecParse co), Some (coordinates_stringify co), Some (coordinates_equals co),
        JUndefined),
     (''vec3'', JObj 2 [(''x'', JNum (Fin 0)), (''y'', JNum (Fin 0)), (''z'', JNum (Fin 0))],
        Some (vecParse co), Some (coordinates_stringify co), Some (coordinates_equals co),
        JUndefined),
     (''vec4'', JObj 3 [(''x'', JNum (Fin 0)), (''y'', JNum (Fin 0)), (''z'', JNum (Fin 0)),
                        (''w'', JNum (Fin 1))],
        Some (vecParse co), Some (coordinates_stringify co), Some (coordinates_equals co),
        JUndefined)]"

text \<open>Running a list of registrations: a call that throws ends the run.\<close>

fun register_all :: "registration list \<Rightarrow> registry \<Rightarrow> js_error option \<times> registry" where
  "register_all [] reg = (None, reg)"
| "register_all ((name, d, p, s, e, c) # rs) reg =
     (case registerPropertyType name d p s e c reg of
        (Some err, reg') \<Rightarrow> (Some err, reg')
      | (None, reg') \<Rightarrow> register_all rs reg')"

text \<open>The registry once the module is loaded.\<close>

definition propertyTypes :: "coordinates \<Rightarrow> registry" where
  "propertyTypes co = snd (register_all (builtin_registrations co) Map.empty)"

subsection \<open>Validation of a default value\<close>

text \<open>\<^verbatim>\<open>Object.keys(v)\<close> for an object \<open>v\<close>: the indices of an array, the keys of a plain
  object; an element has no enumerable property of its own.\<close>

definition object_keys :: "jsval \<Rightarrow> string list" where
  "object_keys v =
     (case v of
        JArr a xs \<Rightarrow> map digits_of [0..<length xs]
      | JObj a ps \<Rightarrow> remdups (map fst ps)
      | _ \<Rightarrow> [])"

text \<open>\<^verbatim>\<open>v.x\<close>, \<^verbatim>\<open>v.y\<close>, \<^verbatim>\<open>v.z\<close>, \<^verbatim>\<open>v.w\<close> for an object \<open>v\<close>: a property of its
  own, which an array or an element of the model does not have.\<close>

definition get_prop :: "jsval \<Rightarrow> string \<Rightarrow> jsval" where
  "get_prop v k =
     (case v of
        JObj a ps \<Rightarrow> (case map_of ps k of None \<Rightarrow> JUndefined | Some x \<Rightarrow> x)
      | _ \<Rightarrow> JUndefined)"

definition isValidDefaultCoordinate :: "jsval \<Rightarrow> nat \<Rightarrow> bool" where
  "isValidDefaultCoordinate possibleCoordinates dimensions =
     (if possibleCoordinates = JNull then True
      else if typeof possibleCoordinates \<noteq> ''object'' then False
      else if length (object_keys possibleCoordinates) \<noteq> dimensions then False
      else
        let x = get_prop possibleCoordinates ''x'';
            y = get_prop possibleCoordinates ''y'';
            z = get_prop possibleCoordinates ''z'';
            w = get_prop possibleCoordinates ''w''
        in if typeof x \<noteq> ''number'' \<or> typeof y \<noteq> ''number'' then False
           else if dimensions > 2 \<and> typeof z \<noteq> ''number'' then False
           else if dimensions > 3 \<and> typeof w \<noteq> ''number'' then False
           else True)"

definition isValidDefaultValue :: "string \<Rightarrow> jsval \<Rightarrow> bool" where
  "isValidDefaultValue type defaultVal =
     (if type = ''audio'' \<and> typeof defaultVal \<noteq> ''string'' then False
      else if type = ''array'' \<and> \<not> isArray defaultVal then False
      else if type = ''asset'' \<and> typeof defaultVal \<noteq> ''string'' then False
      else if type = ''boolean'' \<and> typeof defaultVal \<noteq> ''boolean'' then False
      else if type = ''color'' \<and> typeof defaultVal \<noteq> ''string'' then False
      else if type = ''int'' \<and> typeof defaultVal \<noteq> ''number'' then False
      else if type = ''number'' \<and> typeof defaultVal \<noteq> ''number'' then False
      else if type = ''map'' \<and> typeof defaultVal \<noteq> ''string'' then False
      else if type = ''model'' \<and> typeof defaultVal \<noteq> ''string'' then False
      else if type = ''selector'' \<and> typeof defaultVal \<noteq> ''string'' \<and> defaultVal \<noteq> JNull
        then False
      else if type = ''selectorAll'' \<and> typeof defaultVal \<noteq> ''string'' \<and> defaultVal \<noteq> JNull
        then False
      else if type = ''src'' \<and> typeof defaultVal \<noteq> ''string'' then False
      else if type = ''string'' \<and> typeof defaultVal \<noteq> ''string'' then False
      else if type = ''time'' \<and> typeof defaultVal \<noteq> ''number'' then False
      else if type = ''vec2'' then isValidDefaultCoordinate defaultVal 2
      else if type = ''vec3'' then isValidDefaultCoordinate defaultVal 3
      else if type = ''vec4'' then isValidDefaultCoordinate defaultVal 4
      else True)"

subsection \<open>The coordinate codec\<close>












subsection \<open>A world and a codec for examples\<close>

text \<open>A world whose document has no element, right after the module is loaded (the
  objects 0 to 3 are the defaults); and stand-ins for the three functions of
  coordinates.js, used only where an example needs the registry.\<close>

definition no_document :: world where
  "no_document =
     \<lparr>getElementById = (\<lambda>i. None), querySelector = (\<lambda>q. Inr None),
      querySelectorAll = (\<lambda>q. Inr []), formatNumber = (\<lambda>q. ''''), roundNumber = (\<lambda>q. NaN),
      next_id = 4, warnings = []\<rparr>"

definition no_coordinates :: coordinates where
  "no_coordinates =
     \<lparr>coordinates_parse = pure_parse defaultParse, coordinates_stringify = defaultStringify,
      coordinates_equals = defaultEquals\<rparr>"

text \<open>Segments put together again, with the separator between them.\<close>

fun unsplit :: "char \<Rightarrow> string list \<Rightarrow> string" where
  "unsplit c [] = []"
| "unsplit c [seg] = seg"
| "unsplit c (seg # seg' # segs) = seg @ c # unsplit c (seg' # segs)"

text \<open>\<^verbatim>\<open>Number.isFinite(v)\<close>: a number that is not \<^verbatim>\<open>NaN\<close> and not infinite.\<close>

definition finite_number :: "jsval \<Rightarrow> bool" where
  "finite_number v = (case v of JNum (Fin q) \<Rightarrow> True | _ \<Rightarrow> False)"

text \<open>A number of any kind (\<^verbatim>\<open>typeof v === 'number'\<close>), as the binding of a key.\<close>

definition number_bound :: "jsval option \<Rightarrow> bool" where
  "number_bound b = (case b of Some (JNum n) \<Rightarrow> True | _ \<Rightarrow> False)"

text \<open>An object whose own keys are exactly the given names, each bound to a number.\<close>

definition vector_shape :: "string list \<Rightarrow> jsval \<Rightarrow> bool" where
  "vector_shape names v =
     (case v of
        JObj a ps \<Rightarrow> set (map fst ps) = set names \<and> list_all (\<lambda>k. number_bound (map_of ps k)) names
      | _ \<Rightarrow> False)"











text \<open>The world with one element whose id has a dot, \<^verbatim>\<open><a-entity id="a.b">\<close>: the
  selector \<^verbatim>\<open>#a.b\<close> asks for the id \<^verbatim>\<open>a\<close> and the class \<^verbatim>\<open>b\<close>, which no element
  has.\<close>

definition dotted :: element where
  "dotted = \<lparr>tagName = ''A-ENTITY'', attributes = [(''id'', ''a.b'')],
             shown = ''[object HTMLElement]''\<rparr>"


text \<open>The names of the built-in types.\<close>

definition builtin_names :: "string list" where
  "builtin_names = [''audio'', ''array'', ''asset'', ''boolean'', ''color'', ''int'', ''number'',
     ''map'', ''model'', ''selector'', ''selectorAll'', ''src'', ''string'', ''time'', ''vec2'',
     ''vec3'', ''vec4'']"

section \<open>Properties of tracked-controls.js\<close>

lemma num_strict_eq_eq: "num_strict_eq a b \<Longrightarrow> a = b"
  by (cases a; cases b) auto

lemma handleButton_eq:
  assumes st: "buttonStates s i = Some prev"
    and dt: "buttonEventDetails s i = Some \<lparr>detail_id = i, detail_state = i\<rparr>"
  shows "handleButton i snap s =
     Inr (pressed snap \<noteq> pressed prev \<or> touched snap \<noteq> touched prev
            \<or> \<not> num_strict_eq (val snap) (val prev),
       s\<lparr>buttonStates := (buttonStates s)(i \<mapsto>
            \<lparr>pressed = pressed snap, touched = touched snap, val = val snap\<rparr>),
          emitted := emitted s
            @ (if pressed snap \<noteq> pressed prev
               then [(if pressed snap then BUTTONDOWN else BUTTONUP, ButtonDetail i (Some prev))]
               else [])
            @ (if touched snap \<noteq> touched prev
               then [(if touched snap then TOUCHSTART else TOUCHEND,
                      ButtonDetail i (Some (prev\<lparr>pressed := pressed snap\<rparr>)))]
               else [])
            @ (if pressed snap \<noteq> pressed prev \<or> touched snap \<noteq> touched prev
                  \<or> \<not> num_strict_eq (val snap) (val prev)
               then [(BUTTONCHANGED, ButtonDetail i (Some
                      \<lparr>pressed = pressed snap, touched = touched snap, val = val snap\<rparr>))]
               else [])\<rparr>)"
  using st dt
  apply (cases prev)
  apply (simp add: handleButton_def handlePress_def handleTouch_def handleValue_def emit_def
      button_event_detail_def Let_def)
  apply (auto simp: fun_upd_idem dest: num_strict_eq_eq)
  done

lemma compare_axes_eq:
  "length flags = i \<Longrightarrow>
   compare_axes p c i (flags, ch) =
     (flags @ map (axis_differs p c) [i..<length c],
      ch \<or> (\<exists>j. i \<le> j \<and> j < length c \<and> axis_differs p c j))"
proof (induction p c i "(flags, ch)" arbitrary: flags ch rule: compare_axes.induct)
  case (1 p c i flags ch)
  show ?case
  proof (cases "i < length c")
    case True
    have step: "compare_axes p c i (flags, ch) =
        compare_axes p c (i + 1) (flags @ [axis_differs p c i], axis_differs p c i \<or> ch)"
      using True "1.prems" by (subst compare_axes.simps) (auto simp: Let_def nth_append)
    have ih: "compare_axes p c (i + 1) (flags @ [axis_differs p c i], axis_differs p c i \<or> ch) =
        ((flags @ [axis_differs p c i]) @ map (axis_differs p c) [i + 1..<length c],
         (axis_differs p c i \<or> ch) \<or> (\<exists>j. i + 1 \<le> j \<and> j < length c \<and> axis_differs p c j))"
      using "1.hyps"[OF True refl refl] "1.prems"
      by (cases "axis_differs p c i") (simp_all add: nth_append)
    have ex: "((axis_differs p c i \<or> ch) \<or> (\<exists>j. i + 1 \<le> j \<and> j < length c \<and> axis_differs p c j))
          = (ch \<or> (\<exists>j. i \<le> j \<and> j < length c \<and> axis_differs p c j))"
    proof -
      have "(\<exists>j. i \<le> j \<and> j < length c \<and> axis_differs p c j) =
            (axis_differs p c i \<or> (\<exists>j. i + 1 \<le> j \<and> j < length c \<and> axis_differs p c j))"
      proof
        assume "\<exists>j. i \<le> j \<and> j < length c \<and> axis_differs p c j"
        then obtain j where j: "i \<le> j" "j < length c" "axis_differs p c j" by blast
        show "axis_differs p c i \<or> (\<exists>j. i + 1 \<le> j \<and> j < length c \<and> axis_differs p c j)"
        proof (cases "j = i")
          case True
          with j show ?thesis by simp
        next
          case False
          with j have "i + 1 \<le> j" by simp
          with j show ?thesis by blast
        qed
      next
        assume "axis_differs p c i \<or> (\<exists>j. i + 1 \<le> j \<and> j < length c \<and> axis_differs p c j)"
        then show "\<exists>j. i \<le> j \<and> j < length c \<and> axis_differs p c j"
        proof
          assume "axis_differs p c i"
          with True show ?thesis by blast
        next
          assume "\<exists>j. i + 1 \<le> j \<and> j < length c \<and> axis_differs p c j"
          then obtain j where "i + 1 \<le> j" "j < length c" "axis_differs p c j" by blast
          then have "i \<le> j \<and> j < length c \<and> axis_differs p c j" by simp
          then show ?thesis by blast
        qed
      qed
      then show ?thesis by blast
    qed
    have up: "[i..<length c] = i # [i + 1..<length c]"
      using True by (simp add: upt_rec)
    show ?thesis
      unfolding step ih ex up by simp
  next
    case False
    then show ?thesis by (subst compare_axes.simps) auto
  qed
qed

lemma push_axes_eq: "push_axes c i ax = ax @ drop i c"
proof (induction c i ax rule: push_axes.induct)
  case (1 c i ax)
  show ?case
  proof (cases "i < length c")
    case True
    then show ?thesis
      using "1.IH" by (subst push_axes.simps) (simp add: Cons_nth_drop_Suc)
  next
    case False
    then show ?thesis by (subst push_axes.simps) simp
  qed
qed

lemma handleAxes_eq:
  assumes "controller s = Some c" and "gamepad c = Some g"
  shows "handleAxes s =
     (if \<exists>j<length (axes g). axis_differs (axis s) (axes g) j
      then Inr (True, s\<lparr>axis := axes g, changedAxes := axis_flags (axis s) (axes g),
                        emitted := emitted s @
                          [(AXISMOVE, AxisDetail (axes g) (axis_flags (axis s) (axes g)))]\<rparr>)
      else Inr (False, s\<lparr>changedAxes := axis_flags (axis s) (axes g)\<rparr>))"
  using assms
  by (simp add: handleAxes_def compare_axes_eq push_axes_eq axis_flags_def emit_def Let_def)


text \<open>Button and axis processing neither reads nor writes the frame, the pose and the object.\<close>

lemma handlePress_view: "handlePress i b (with_view fr p ob s) = lift_view fr p ob (handlePress i b s)"
  by (simp add: handlePress_def with_view_def lift_view_def emit_def button_event_detail_def Let_def
      split: option.splits)

lemma handleTouch_view: "handleTouch i b (with_view fr p ob s) = lift_view fr p ob (handleTouch i b s)"
  by (simp add: handleTouch_def with_view_def lift_view_def emit_def button_event_detail_def Let_def
      split: option.splits)

lemma handleValue_view: "handleValue i b (with_view fr p ob s) = lift_view fr p ob (handleValue i b s)"
  by (simp add: handleValue_def with_view_def lift_view_def split: option.splits)

lemma emit_view:
  "emit n (button_event_detail (with_view fr p ob s) i) (with_view fr p ob s)
     = with_view fr p ob (emit n (button_event_detail s i) s)"
  by (simp add: with_view_def emit_def button_event_detail_def split: option.splits)

lemma handleButton_view: "handleButton i b (with_view fr p ob s) = lift_view fr p ob (handleButton i b s)"
proof (cases "handlePress i b s")
  case (Inl e)
  then show ?thesis by (simp add: handleButton_def handlePress_view lift_view_def)
next
  case P: (Inr r1)
  obtain c1 s1 where r1: "r1 = (c1, s1)" by (cases r1)
  show ?thesis
  proof (cases "handleTouch i b s1")
    case (Inl e)
    then show ?thesis
      using P r1 by (simp add: handleButton_def handlePress_view handleTouch_view lift_view_def)
  next
    case T: (Inr r2)
    obtain c2 s2 where r2: "r2 = (c2, s2)" by (cases r2)
    show ?thesis
    proof (cases "handleValue i b s2")
      case (Inl e)
      then show ?thesis
        using P r1 T r2
        by (simp add: handleButton_def handlePress_view handleTouch_view handleValue_view
            lift_view_def)
    next
      case V: (Inr r3)
      obtain c3 s3 where r3: "r3 = (c3, s3)" by (cases r3)
      show ?thesis
        using P r1 T r2 V r3
        by (simp add: handleButton_def handlePress_view handleTouch_view handleValue_view
            lift_view_def emit_view)
    qed
  qed
qed

lemma check_buttons_step:
  "i < length (buttons g) \<Longrightarrow>
   check_buttons g i s =
     (case handleButton i (buttons g ! i) (ensure_button i s) of
        Inl e \<Rightarrow> Inl e
      | Inr (_, s3) \<Rightarrow> check_buttons g (i + 1) s3)"
  by (subst check_buttons.simps) (simp add: ensure_button_def Let_def)

lemma check_buttons_done: "\<not> i < length (buttons g) \<Longrightarrow> check_buttons g i s = Inr s"
  by (subst check_buttons.simps) simp

lemma ensure_button_view: "ensure_button i (with_view fr p ob s) = with_view fr p ob (ensure_button i s)"
  by (cases "buttonStates s i"; cases "buttonEventDetails s i")
     (simp_all add: ensure_button_def with_view_def Let_def)

lemma check_buttons_view:
  "check_buttons g i (with_view fr p ob s) =
     (case check_buttons g i s of Inl e \<Rightarrow> Inl e | Inr s' \<Rightarrow> Inr (with_view fr p ob s'))"
proof (induction g i s rule: check_buttons.induct)
  case (1 g i s)
  show ?case
  proof (cases "i < length (buttons g)")
    case False
    then show ?thesis by (simp add: check_buttons_done)
  next
    case True
    show ?thesis
    proof (cases "handleButton i (buttons g ! i) (ensure_button i s)")
      case (Inl e)
      then show ?thesis
        by (simp add: check_buttons_step[OF True] ensure_button_view handleButton_view lift_view_def)
    next
      case (Inr r)
      obtain ch s3 where r: "r = (ch, s3)" by (cases r)
      have "check_buttons g (i + 1) (with_view fr p ob s3) =
        (case check_buttons g (i + 1) s3 of Inl e \<Rightarrow> Inl e | Inr s' \<Rightarrow> Inr (with_view fr p ob s'))"
        using "1.IH"[OF True refl refl refl Inr[unfolded ensure_button_def Let_def] r[symmetric]] .
      then show ?thesis
        using Inr r
        by (simp add: check_buttons_step[OF True] ensure_button_view handleButton_view lift_view_def)
    qed
  qed
qed

lemma handleAxes_view: "handleAxes (with_view fr p ob s) = lift_view fr p ob (handleAxes s)"
proof (cases "controller s")
  case None
  then show ?thesis by (simp add: handleAxes_def with_view_def lift_view_def)
next
  case (Some c)
  show ?thesis
  proof (cases "gamepad c")
    case None
    with Some show ?thesis by (simp add: handleAxes_def with_view_def lift_view_def)
  next
    case G: (Some g)
    have cv: "controller (with_view fr p ob s) = Some c" using Some by (simp add: with_view_def)
    show ?thesis
      unfolding handleAxes_eq[OF cv G] handleAxes_eq[OF Some G]
      by (simp add: lift_view_def with_view_def)
  qed
qed

lemma updateButtons_view:
  "updateButtons (with_view fr p ob s) =
     (case updateButtons s of Inl e \<Rightarrow> Inl e | Inr s' \<Rightarrow> Inr (with_view fr p ob s'))"
proof (cases "controller s")
  case None
  then show ?thesis by (simp add: updateButtons_def with_view_def)
next
  case (Some c)
  show ?thesis
  proof (cases "gamepad c")
    case None
    with Some show ?thesis by (simp add: updateButtons_def with_view_def)
  next
    case G: (Some g)
    have cv: "controller (with_view fr p ob s) = Some c" using Some by (simp add: with_view_def)
    show ?thesis
    proof (cases "check_buttons g 0 s")
      case (Inl e)
      then show ?thesis using Some G cv
        by (simp add: updateButtons_def check_buttons_view)
    next
      case C: (Inr s1)
      show ?thesis
      proof (cases "handleAxes s1")
        case (Inl e)
        then show ?thesis using Some G cv C
          by (simp add: updateButtons_def check_buttons_view handleAxes_view lift_view_def)
      next
        case (Inr r)
        obtain ch s2 where "r = (ch, s2)" by (cases r)
        then show ?thesis using Some G cv C Inr
          by (simp add: updateButtons_def check_buttons_view handleAxes_view lift_view_def)
      qed
    qed
  qed
qed


text \<open>With a state object under the key, a check cannot throw; it changes nothing but the
  table of states and the events.\<close>

lemma handlePress_frame:
  assumes "buttonStates s i \<noteq> None"
  shows "\<exists>c bs ev. handlePress i b s = Inr (c, s\<lparr>buttonStates := bs, emitted := ev\<rparr>) \<and> bs i \<noteq> None"
proof -
  from assms obtain prev where prev: "buttonStates s i = Some prev" by blast
  show ?thesis
  proof (cases "pressed b = pressed prev")
    case True
    have "handlePress i b s = Inr (False, s\<lparr>buttonStates := buttonStates s, emitted := emitted s\<rparr>)"
      using prev True by (simp add: handlePress_def)
    with assms show ?thesis by blast
  next
    case False
    have "handlePress i b s =
        Inr (True, s\<lparr>buttonStates := (buttonStates s)(i \<mapsto> prev\<lparr>pressed := pressed b\<rparr>),
                      emitted := emitted s @
                        [(if pressed b then BUTTONDOWN else BUTTONUP, button_event_detail s i)]\<rparr>)"
      using prev False by (simp add: handlePress_def emit_def Let_def)
    moreover have "((buttonStates s)(i \<mapsto> prev\<lparr>pressed := pressed b\<rparr>)) i \<noteq> None" by simp
    ultimately show ?thesis by blast
  qed
qed

lemma handleTouch_frame:
  assumes "buttonStates s i \<noteq> None"
  shows "\<exists>c bs ev. handleTouch i b s = Inr (c, s\<lparr>buttonStates := bs, emitted := ev\<rparr>) \<and> bs i \<noteq> None"
proof -
  from assms obtain prev where prev: "buttonStates s i = Some prev" by blast
  show ?thesis
  proof (cases "touched b = touched prev")
    case True
    have "handleTouch i b s = Inr (False, s\<lparr>buttonStates := buttonStates s, emitted := emitted s\<rparr>)"
      using prev True by (simp add: handleTouch_def)
    with assms show ?thesis by blast
  next
    case False
    have "handleTouch i b s =
        Inr (True, s\<lparr>buttonStates := (buttonStates s)(i \<mapsto> prev\<lparr>touched := touched b\<rparr>),
                      emitted := emitted s @
                        [(if touched b then TOUCHSTART else TOUCHEND, button_event_detail s i)]\<rparr>)"
      using prev False by (simp add: handleTouch_def emit_def Let_def)
    moreover have "((buttonStates s)(i \<mapsto> prev\<lparr>touched := touched b\<rparr>)) i \<noteq> None" by simp
    ultimately show ?thesis by blast
  qed
qed

lemma handleValue_frame:
  assumes "buttonStates s i \<noteq> None"
  shows "\<exists>c bs ev. handleValue i b s = Inr (c, s\<lparr>buttonStates := bs, emitted := ev\<rparr>) \<and> bs i \<noteq> None"
proof -
  from assms obtain prev where prev: "buttonStates s i = Some prev" by blast
  show ?thesis
  proof (cases "num_strict_eq (val b) (val prev)")
    case True
    have "handleValue i b s = Inr (False, s\<lparr>buttonStates := buttonStates s, emitted := emitted s\<rparr>)"
      using prev True by (simp add: handleValue_def)
    with assms show ?thesis by blast
  next
    case False
    have "handleValue i b s =
        Inr (True, s\<lparr>buttonStates := (buttonStates s)(i \<mapsto> prev\<lparr>val := val b\<rparr>),
                      emitted := emitted s\<rparr>)"
      using prev False by (simp add: handleValue_def)
    moreover have "((buttonStates s)(i \<mapsto> prev\<lparr>val := val b\<rparr>)) i \<noteq> None" by simp
    ultimately show ?thesis by blast
  qed
qed

lemma handleButton_frame:
  assumes "buttonStates s i \<noteq> None"
  shows "\<exists>c bs ev. handleButton i b s = Inr (c, s\<lparr>buttonStates := bs, emitted := ev\<rparr>)"
proof -
  from handlePress_frame[OF assms, of b] obtain c1 bs1 ev1 where
    p: "handlePress i b s = Inr (c1, s\<lparr>buttonStates := bs1, emitted := ev1\<rparr>)" and b1: "bs1 i \<noteq> None"
    by blast
  let ?s1 = "s\<lparr>buttonStates := bs1, emitted := ev1\<rparr>"
  have "buttonStates ?s1 i \<noteq> None" using b1 by simp
  from handleTouch_frame[OF this, of b] obtain c2 bs2 ev2 where
    t: "handleTouch i b ?s1 = Inr (c2, s\<lparr>buttonStates := bs2, emitted := ev2\<rparr>)" and b2: "bs2 i \<noteq> None"
    by auto
  let ?s2 = "s\<lparr>buttonStates := bs2, emitted := ev2\<rparr>"
  have "buttonStates ?s2 i \<noteq> None" using b2 by simp
  from handleValue_frame[OF this, of b] obtain c3 bs3 ev3 where
    v: "handleValue i b ?s2 = Inr (c3, s\<lparr>buttonStates := bs3, emitted := ev3\<rparr>)"
    by auto
  let ?s3 = "s\<lparr>buttonStates := bs3, emitted := ev3\<rparr>"
  show ?thesis
  proof (cases "c1 \<or> c2 \<or> c3")
    case False
    then have "handleButton i b s = Inr (False, ?s3)"
      using p t v by (simp add: handleButton_def)
    then show ?thesis by blast
  next
    case True
    then have "handleButton i b s = Inr (True, emit BUTTONCHANGED (button_event_detail ?s3 i) ?s3)"
      using p t v by (simp add: handleButton_def)
    moreover have "emit BUTTONCHANGED (button_event_detail ?s3 i) ?s3 =
        s\<lparr>buttonStates := bs3, emitted := ev3 @ [(BUTTONCHANGED, button_event_detail ?s3 i)]\<rparr>"
      by (simp add: emit_def)
    ultimately show ?thesis by metis
  qed
qed

lemma ensure_button_frame:
  "\<exists>bs ds. ensure_button i s = s\<lparr>buttonStates := bs, buttonEventDetails := ds\<rparr> \<and> bs i \<noteq> None"
proof -
  let ?bs = "if buttonStates s i = None
             then (buttonStates s)(i \<mapsto> \<lparr>pressed = False, touched = False, val = Fin 0\<rparr>)
             else buttonStates s"
  let ?ds = "if buttonEventDetails s i = None
             then (buttonEventDetails s)(i \<mapsto> \<lparr>detail_id = i, detail_state = i\<rparr>)
             else buttonEventDetails s"
  have "ensure_button i s = s\<lparr>buttonStates := ?bs, buttonEventDetails := ?ds\<rparr>"
    by (cases "buttonStates s i"; cases "buttonEventDetails s i")
       (simp_all add: ensure_button_def Let_def)
  moreover have "?bs i \<noteq> None" by simp
  ultimately show ?thesis by blast
qed

lemma check_buttons_frame:
  "\<exists>bs ds ev. check_buttons g i s = Inr (s\<lparr>buttonStates := bs, buttonEventDetails := ds, emitted := ev\<rparr>)"
proof (induction g i s rule: check_buttons.induct)
  case (1 g i s)
  show ?case
  proof (cases "i < length (buttons g)")
    case False
    have "check_buttons g i s = Inr (s\<lparr>buttonStates := buttonStates s,
             buttonEventDetails := buttonEventDetails s, emitted := emitted s\<rparr>)"
      using False by (simp add: check_buttons_done)
    then show ?thesis by blast
  next
    case True
    obtain bs0 ds0 where e: "ensure_button i s = s\<lparr>buttonStates := bs0, buttonEventDetails := ds0\<rparr>"
      and b0: "bs0 i \<noteq> None"
      using ensure_button_frame by blast
    have "buttonStates (ensure_button i s) i \<noteq> None" using e b0 by simp
    from handleButton_frame[OF this, of "buttons g ! i"] obtain c bs1 ev1 where
      h0: "handleButton i (buttons g ! i) (ensure_button i s) =
            Inr (c, (ensure_button i s)\<lparr>buttonStates := bs1, emitted := ev1\<rparr>)"
      by blast
    have "(ensure_button i s)\<lparr>buttonStates := bs1, emitted := ev1\<rparr> =
        s\<lparr>buttonStates := bs1, buttonEventDetails := ds0, emitted := ev1\<rparr>"
      by (simp add: e)
    with h0 have
      h: "handleButton i (buttons g ! i) (ensure_button i s) =
            Inr (c, s\<lparr>buttonStates := bs1, buttonEventDetails := ds0, emitted := ev1\<rparr>)"
      by simp
    let ?s3 = "s\<lparr>buttonStates := bs1, buttonEventDetails := ds0, emitted := ev1\<rparr>"
    from "1.IH"[OF True refl refl refl h[unfolded ensure_button_def Let_def] refl]
    obtain bs ds ev where
      "check_buttons g (i + 1) ?s3 =
         Inr (?s3\<lparr>buttonStates := bs, buttonEventDetails := ds, emitted := ev\<rparr>)"
      by blast
    then have "check_buttons g i s =
         Inr (s\<lparr>buttonStates := bs, buttonEventDetails := ds, emitted := ev\<rparr>)"
      using h by (simp add: check_buttons_step[OF True])
    then show ?thesis by blast
  qed
qed

lemma updateButtons_frame:
  "\<exists>bs ds ev ca ax. updateButtons s =
      Inr (s\<lparr>buttonStates := bs, buttonEventDetails := ds, emitted := ev,
              changedAxes := ca, axis := ax\<rparr>)"
proof -
  have idle: "s = s\<lparr>buttonStates := buttonStates s, buttonEventDetails := buttonEventDetails s,
       emitted := emitted s, changedAxes := changedAxes s, axis := axis s\<rparr>"
    by simp
  show ?thesis
  proof (cases "controller s")
    case None
    then have "updateButtons s = Inr s" by (simp add: updateButtons_def)
    with idle show ?thesis by metis
  next
    case (Some c)
    show ?thesis
    proof (cases "gamepad c")
      case None
      with Some have "updateButtons s = Inr s" by (simp add: updateButtons_def)
      with idle show ?thesis by metis
    next
      case G: (Some g)
      obtain bs ds ev where
        cb: "check_buttons g 0 s = Inr (s\<lparr>buttonStates := bs, buttonEventDetails := ds, emitted := ev\<rparr>)"
        using check_buttons_frame by blast
      let ?s1 = "s\<lparr>buttonStates := bs, buttonEventDetails := ds, emitted := ev\<rparr>"
      have c1: "controller ?s1 = Some c" using Some by simp
      define d where "d = (\<exists>j<length (axes g). axis_differs (axis s) (axes g) j)"
      have ha: "handleAxes ?s1 =
         (if d
          then Inr (True, s\<lparr>buttonStates := bs, buttonEventDetails := ds,
            emitted := ev @ [(AXISMOVE, AxisDetail (axes g) (axis_flags (axis s) (axes g)))],
            changedAxes := axis_flags (axis s) (axes g), axis := axes g\<rparr>)
          else Inr (False, s\<lparr>buttonStates := bs, buttonEventDetails := ds,
            emitted := ev, changedAxes := axis_flags (axis s) (axes g), axis := axis s\<rparr>))"
        using handleAxes_eq[OF c1 G] unfolding d_def by simp
      show ?thesis
      proof (cases d)
        case True
        then have "updateButtons s = Inr (s\<lparr>buttonStates := bs, buttonEventDetails := ds,
            emitted := ev @ [(AXISMOVE, AxisDetail (axes g) (axis_flags (axis s) (axes g)))],
            changedAxes := axis_flags (axis s) (axes g), axis := axes g\<rparr>)"
          using Some G cb ha by (simp add: updateButtons_def)
        then show ?thesis by blast
      next
        case False
        then have "updateButtons s = Inr (s\<lparr>buttonStates := bs, buttonEventDetails := ds,
            emitted := ev, changedAxes := axis_flags (axis s) (axes g), axis := axis s\<rparr>)"
          using Some G cb ha by (simp add: updateButtons_def)
        then show ?thesis by blast
      qed
    qed
  qed
qed


subsection \<open>The button diff\<close>

text \<open>
  Claim C1.  Let the key \<open>i\<close> hold the state object \<open>prev\<close> and the detail object that
  \<^verbatim>\<open>updateButtons\<close> creates for it.  Diffing a snapshot \<open>snap\<close> against it never throws, and
  all three checks run: afterwards the stored state has the snapshot's \<^verbatim>\<open>pressed\<close>,
  \<^verbatim>\<open>touched\<close> and \<^verbatim>\<open>value\<close>, whichever of them changed.  A change of \<^verbatim>\<open>pressed\<close> emits
  \<^verbatim>\<open>buttondown\<close> or \<^verbatim>\<open>buttonup\<close> (the listener still reads the old state: the store comes
  after the event), then a change of \<^verbatim>\<open>touched\<close> emits \<^verbatim>\<open>touchstart\<close> or \<^verbatim>\<open>touchend\<close>
  (the listener reads the new \<^verbatim>\<open>pressed\<close> already), a change of \<^verbatim>\<open>value\<close> emits nothing,
  and when at least one of the three changed exactly one \<^verbatim>\<open>buttonchanged\<close> follows, with
  the index and the updated state.  Nothing else of the component changes.  From
  \<^verbatim>\<open>{pressed: false, touched: false, value: 0}\<close> and the snapshot
  \<^verbatim>\<open>{pressed: true, touched: true, value: 0.5}\<close> the events are \<^verbatim>\<open>buttondown\<close>,
  \<^verbatim>\<open>touchstart\<close>, \<^verbatim>\<open>buttonchanged\<close>, in that order, and the stored state is the snapshot.
\<close>

theorem handleButton_diff:
  assumes "buttonStates s i = Some prev"
    and "buttonEventDetails s i = Some \<lparr>detail_id = i, detail_state = i\<rparr>"
  shows "handleButton i snap s =
     Inr (pressed snap \<noteq> pressed prev \<or> touched snap \<noteq> touched prev
            \<or> \<not> num_strict_eq (val snap) (val prev),
       s\<lparr>buttonStates := (buttonStates s)(i \<mapsto>
            \<lparr>pressed = pressed snap, touched = touched snap, val = val snap\<rparr>),
          emitted := emitted s
            @ (if pressed snap \<noteq> pressed prev
               then [(if pressed snap then BUTTONDOWN else BUTTONUP, ButtonDetail i (Some prev))]
               else [])
            @ (if touched snap \<noteq> touched prev
               then [(if touched snap then TOUCHSTART else TOUCHEND,
                      ButtonDetail i (Some (prev\<lparr>pressed := pressed snap\<rparr>)))]
               else [])
            @ (if pressed snap \<noteq> pressed prev \<or> touched snap \<noteq> touched prev
                  \<or> \<not> num_strict_eq (val snap) (val prev)
               then [(BUTTONCHANGED, ButtonDetail i (Some
                      \<lparr>pressed = pressed snap, touched = touched snap, val = val snap\<rparr>))]
               else [])\<rparr>)
   \<and> (prev = \<lparr>pressed = False, touched = False, val = Fin 0\<rparr> \<and>
        snap = \<lparr>pressed = True, touched = True, val = Fin (1/2)\<rparr> \<longrightarrow>
      handleButton i snap s =
        Inr (True,
          s\<lparr>buttonStates := (buttonStates s)(i \<mapsto>
               \<lparr>pressed = True, touched = True, val = Fin (1/2)\<rparr>),
             emitted := emitted s @
               [(''buttondown'',
                   ButtonDetail i (Some \<lparr>pressed = False, touched = False, val = Fin 0\<rparr>)),
                (''touchstart'',
                   ButtonDetail i (Some \<lparr>pressed = True, touched = False, val = Fin 0\<rparr>)),
                (''buttonchanged'',
                   ButtonDetail i (Some \<lparr>pressed = True, touched = True, val = Fin (1/2)\<rparr>))]\<rparr>))"
proof -
  note eq = handleButton_eq[OF assms, of snap]
  show ?thesis
  proof (intro conjI impI)
    show "handleButton i snap s =
     Inr (pressed snap \<noteq> pressed prev \<or> touched snap \<noteq> touched prev
            \<or> \<not> num_strict_eq (val snap) (val prev),
       s\<lparr>buttonStates := (buttonStates s)(i \<mapsto>
            \<lparr>pressed = pressed snap, touched = touched snap, val = val snap\<rparr>),
          emitted := emitted s
            @ (if pressed snap \<noteq> pressed prev
               then [(if pressed snap then BUTTONDOWN else BUTTONUP, ButtonDetail i (Some prev))]
               else [])
            @ (if touched snap \<noteq> touched prev
               then [(if touched snap then TOUCHSTART else TOUCHEND,
                      ButtonDetail i (Some (prev\<lparr>pressed := pressed snap\<rparr>)))]
               else [])
            @ (if pressed snap \<noteq> pressed prev \<or> touched snap \<noteq> touched prev
                  \<or> \<not> num_strict_eq (val snap) (val prev)
               then [(BUTTONCHANGED, ButtonDetail i (Some
                      \<lparr>pressed = pressed snap, touched = touched snap, val = val snap\<rparr>))]
               else [])\<rparr>)"
      by (rule eq)
  next
    assume "prev = \<lparr>pressed = False, touched = False, val = Fin 0\<rparr> \<and>
        snap = \<lparr>pressed = True, touched = True, val = Fin (1/2)\<rparr>"
    then show "handleButton i snap s =
        Inr (True,
          s\<lparr>buttonStates := (buttonStates s)(i \<mapsto>
               \<lparr>pressed = True, touched = True, val = Fin (1/2)\<rparr>),
             emitted := emitted s @
               [(''buttondown'',
                   ButtonDetail i (Some \<lparr>pressed = False, touched = False, val = Fin 0\<rparr>)),
                (''touchstart'',
                   ButtonDetail i (Some \<lparr>pressed = True, touched = False, val = Fin 0\<rparr>)),
                (''buttonchanged'',
                   ButtonDetail i (Some \<lparr>pressed = True, touched = True, val = Fin (1/2)\<rparr>))]\<rparr>)"
      unfolding eq by (simp add: BUTTONDOWN_def TOUCHSTART_def BUTTONCHANGED_def)
  qed
qed

text \<open>The scenario of C1 on the first button of a component fresh from \<^verbatim>\<open>init\<close>, after the
  loop body of \<^verbatim>\<open>updateButtons\<close> has created the state and detail objects.\<close>

theorem handleButton_diff_witness:
  "handleButton 0 \<lparr>pressed = True, touched = True, val = Fin (1/2)\<rparr>
     (ensure_button 0 (init \<lparr>visible = True, matrix_elements = [], position = [],
                              rotation = [], scale = []\<rparr>)) =
   Inr (True,
     (init \<lparr>visible = True, matrix_elements = [], position = [], rotation = [], scale = []\<rparr>)
       \<lparr>buttonStates := [0 \<mapsto> \<lparr>pressed = True, touched = True, val = Fin (1/2)\<rparr>],
        buttonEventDetails := [0 \<mapsto> \<lparr>detail_id = 0, detail_state = 0\<rparr>],
        emitted :=
          [(''buttondown'',
              ButtonDetail 0 (Some \<lparr>pressed = False, touched = False, val = Fin 0\<rparr>)),
           (''touchstart'',
              ButtonDetail 0 (Some \<lparr>pressed = True, touched = False, val = Fin 0\<rparr>)),
           (''buttonchanged'',
              ButtonDetail 0 (Some \<lparr>pressed = True, touched = True, val = Fin (1/2)\<rparr>))]\<rparr>)"
proof -
  let ?ob = "\<lparr>visible = True, matrix_elements = [], position = [], rotation = [], scale = []\<rparr>"
  let ?s = "ensure_button 0 (init ?ob)"
  have e: "?s = (init ?ob)
       \<lparr>buttonStates := [0 \<mapsto> \<lparr>pressed = False, touched = False, val = Fin 0\<rparr>],
        buttonEventDetails := [0 \<mapsto> \<lparr>detail_id = 0, detail_state = 0\<rparr>]\<rparr>"
    by (simp add: ensure_button_def init_def)
  have st: "buttonStates ?s 0 = Some \<lparr>pressed = False, touched = False, val = Fin 0\<rparr>"
    unfolding e by simp
  have dt: "buttonEventDetails ?s 0 = Some \<lparr>detail_id = 0, detail_state = 0\<rparr>"
    unfolding e by simp
  have em: "emitted ?s = []"
    unfolding e by (simp add: init_def)
  from handleButton_diff[OF st dt, of "\<lparr>pressed = True, touched = True, val = Fin (1/2)\<rparr>",
      THEN conjunct2]
  show ?thesis
    unfolding em unfolding e by simp
qed

subsection \<open>The axis diff\<close>

text \<open>
  Claim C2.  With a controller that has a gamepad, \<^verbatim>\<open>handleAxes\<close> never throws.  It compares
  every element of the reading with the stored element at its index (\<^verbatim>\<open>!==\<close>; a reading
  longer than the stored vector differs at the indices the stored vector lacks).  When no
  element differs it emits nothing and leaves the stored vector as it is.  When at least
  one differs the stored vector becomes the reading and one \<^verbatim>\<open>axismove\<close> is emitted, with
  the reading and one flag per element of the reading, set exactly where the element
  differed.  Stored \<^verbatim>\<open>[0, 0]\<close> with reading \<^verbatim>\<open>[0, 0]\<close> emits nothing; with reading
  \<^verbatim>\<open>[0.3, 0]\<close> it emits one \<^verbatim>\<open>axismove\<close> whose flags are \<^verbatim>\<open>[true, false]\<close>.
\<close>

theorem handleAxes_diff:
  assumes "controller s = Some c" and "gamepad c = Some g"
  shows "handleAxes s =
     (if \<exists>j<length (axes g). axis_differs (axis s) (axes g) j
      then Inr (True, s\<lparr>axis := axes g, changedAxes := axis_flags (axis s) (axes g),
                        emitted := emitted s @
                          [(AXISMOVE, AxisDetail (axes g) (axis_flags (axis s) (axes g)))]\<rparr>)
      else Inr (False, s\<lparr>changedAxes := axis_flags (axis s) (axes g)\<rparr>))
   \<and> length (axis_flags (axis s) (axes g)) = length (axes g)
   \<and> (\<forall>j. j < length (axes g) \<longrightarrow>
         axis_flags (axis s) (axes g) ! j =
           (if j < length (axis s) then \<not> num_strict_eq (axis s ! j) (axes g ! j) else True))
   \<and> (axis s = [Fin 0, Fin 0] \<and> axes g = [Fin 0, Fin 0] \<longrightarrow>
        handleAxes s = Inr (False, s\<lparr>changedAxes := [False, False]\<rparr>))
   \<and> (axis s = [Fin 0, Fin 0] \<and> axes g = [Fin (3/10), Fin 0] \<longrightarrow>
        handleAxes s =
          Inr (True, s\<lparr>axis := [Fin (3/10), Fin 0], changedAxes := [True, False],
                 emitted := emitted s @
                   [(''axismove'', AxisDetail [Fin (3/10), Fin 0] [True, False])]\<rparr>))"
proof -
  note eq = handleAxes_eq[OF assms]
  have two: "[0..<2] = [0, Suc 0]" by (simp add: upt_rec)
  have same: "axis s = [Fin 0, Fin 0] \<and> axes g = [Fin 0, Fin 0] \<longrightarrow>
        handleAxes s = Inr (False, s\<lparr>changedAxes := [False, False]\<rparr>)"
  proof
    assume a: "axis s = [Fin 0, Fin 0] \<and> axes g = [Fin 0, Fin 0]"
    have f: "axis_flags (axis s) (axes g) = [False, False]"
      using a by (simp add: axis_flags_def axis_differs_def two)
    have n: "\<not> (\<exists>j<length (axes g). axis_differs (axis s) (axes g) j)"
      using a by (auto simp: axis_differs_def less_Suc_eq)
    show "handleAxes s = Inr (False, s\<lparr>changedAxes := [False, False]\<rparr>)"
      unfolding eq using n f by simp
  qed
  have moved: "axis s = [Fin 0, Fin 0] \<and> axes g = [Fin (3/10), Fin 0] \<longrightarrow>
        handleAxes s =
          Inr (True, s\<lparr>axis := [Fin (3/10), Fin 0], changedAxes := [True, False],
                 emitted := emitted s @
                   [(''axismove'', AxisDetail [Fin (3/10), Fin 0] [True, False])]\<rparr>)"
  proof
    assume a: "axis s = [Fin 0, Fin 0] \<and> axes g = [Fin (3/10), Fin 0]"
    have f: "axis_flags (axis s) (axes g) = [True, False]"
      using a by (simp add: axis_flags_def axis_differs_def two)
    have "axis_differs (axis s) (axes g) 0"
      using a by (simp add: axis_differs_def)
    then have y: "\<exists>j<length (axes g). axis_differs (axis s) (axes g) j"
      using a by auto
    show "handleAxes s =
          Inr (True, s\<lparr>axis := [Fin (3/10), Fin 0], changedAxes := [True, False],
                 emitted := emitted s @
                   [(''axismove'', AxisDetail [Fin (3/10), Fin 0] [True, False])]\<rparr>)"
      unfolding eq using y f a by (simp add: AXISMOVE_def)
  qed
  have len: "length (axis_flags (axis s) (axes g)) = length (axes g)"
    by (simp add: axis_flags_def)
  have nth: "\<forall>j. j < length (axes g) \<longrightarrow>
         axis_flags (axis s) (axes g) ! j =
           (if j < length (axis s) then \<not> num_strict_eq (axis s ! j) (axes g ! j) else True)"
    by (simp add: axis_flags_def axis_differs_def)
  from eq len nth same moved show ?thesis by blast
qed

text \<open>The second scenario of C2, on a component fresh from \<^verbatim>\<open>init\<close> whose stored vector has
  been cut to two axes and whose controller reads \<^verbatim>\<open>[0.3, 0]\<close>.\<close>

theorem handleAxes_diff_witness:
  "handleAxes ((init \<lparr>visible = True, matrix_elements = [], position = [], rotation = [],
                     scale = []\<rparr>)
      \<lparr>controller := Some \<lparr>hand = None, gripSpace = 0,
           gamepad = Some \<lparr>buttons = [], axes = [Fin (3/10), Fin 0]\<rparr>\<rparr>,
       axis := [Fin 0, Fin 0]\<rparr>) =
   Inr (True,
     (init \<lparr>visible = True, matrix_elements = [], position = [], rotation = [], scale = []\<rparr>)
      \<lparr>controller := Some \<lparr>hand = None, gripSpace = 0,
           gamepad = Some \<lparr>buttons = [], axes = [Fin (3/10), Fin 0]\<rparr>\<rparr>,
       axis := [Fin (3/10), Fin 0], changedAxes := [True, False],
       emitted := [(''axismove'', AxisDetail [Fin (3/10), Fin 0] [True, False])]\<rparr>)"
proof -
  let ?ob = "\<lparr>visible = True, matrix_elements = [], position = [], rotation = [], scale = []\<rparr>"
  let ?g = "\<lparr>buttons = [], axes = [Fin (3/10), Fin 0]\<rparr>"
  let ?c = "\<lparr>hand = None, gripSpace = 0, gamepad = Some ?g\<rparr>"
  let ?s = "(init ?ob)\<lparr>controller := Some ?c, axis := [Fin 0, Fin 0]\<rparr>"
  have c: "controller ?s = Some ?c" by simp
  have g: "gamepad ?c = Some ?g" by simp
  have a: "axis ?s = [Fin 0, Fin 0] \<and> axes ?g = [Fin (3/10), Fin 0]" by simp
  have em: "emitted ?s = []" by (simp add: init_def)
  from handleAxes_diff[OF c g] a
  have "handleAxes ?s =
          Inr (True, ?s\<lparr>axis := [Fin (3/10), Fin 0], changedAxes := [True, False],
                 emitted := emitted ?s @
                   [(''axismove'', AxisDetail [Fin (3/10), Fin 0] [True, False])]\<rparr>)"
    by blast
  then show ?thesis unfolding em by simp
qed

subsection \<open>The tick\<close>

lemma tick_skip:
  assumes "controller s = None \<or> frame s = None \<or> referenceSpace s = None
           \<or> (\<exists>c h. controller s = Some c \<and> hand c = Some h)"
  shows "tick decompose s = Inr (auto_hide s)"
proof -
  have k: "controller (auto_hide s) = controller s" "frame (auto_hide s) = frame s"
    "referenceSpace (auto_hide s) = referenceSpace s"
    by (simp_all add: auto_hide_def)
  have t: "tick decompose s =
     (case (controller s, frame s, referenceSpace s) of
           (Some c, Some getPose, Some space) \<Rightarrow>
             if hand c = None then
               updateButtons (updatePose decompose ((auto_hide s)\<lparr>pose := getPose (gripSpace c) space\<rparr>))
             else Inr (auto_hide s)
         | _ \<Rightarrow> Inr (auto_hide s))"
    unfolding tick_def Let_def auto_hide_def[symmetric] k ..
  from assms show ?thesis
    unfolding t by (auto split: option.splits)
qed

lemma tick_run:
  assumes "controller s = Some c" and "hand c = None" and "frame s = Some getPose"
    and "referenceSpace s = Some space"
  shows "tick decompose s =
     updateButtons (updatePose decompose ((auto_hide s)\<lparr>pose := getPose (gripSpace c) space\<rparr>))"
proof -
  have k: "controller (auto_hide s) = controller s" "frame (auto_hide s) = frame s"
    "referenceSpace (auto_hide s) = referenceSpace s"
    by (simp_all add: auto_hide_def)
  show ?thesis
    unfolding tick_def Let_def auto_hide_def[symmetric] k using assms by simp
qed


lemma auto_hide_fields:
  "emitted (auto_hide s) = emitted s" "buttonStates (auto_hide s) = buttonStates s"
  "buttonEventDetails (auto_hide s) = buttonEventDetails s" "axis (auto_hide s) = axis s"
  "changedAxes (auto_hide s) = changedAxes s" "pose (auto_hide s) = pose s"
  "matrix_elements (object3D (auto_hide s)) = matrix_elements (object3D s)"
  "position (object3D (auto_hide s)) = position (object3D s)"
  "rotation (object3D (auto_hide s)) = rotation (object3D s)"
  "scale (object3D (auto_hide s)) = scale (object3D s)"
  "visible (object3D (auto_hide s)) = (if autoHide s then controller s \<noteq> None else visible (object3D s))"
  by (simp_all add: auto_hide_def)

text \<open>
  Claim C8.  On a tick with no bound controller, or no frame, or no reference space, and
  on a tick whose controller is a tracked hand, \<^verbatim>\<open>tick\<close> returns normally and has done one
  thing at most: with \<^verbatim>\<open>autoHide\<close> set, it has made the object visible exactly when a
  controller is bound.  No event has been emitted, the stored button states, the detail
  objects, the stored axis vector and its flags are as before, and so are the pose and the
  object's matrix, position, rotation and scale.  (The file has no logging call at all.)
\<close>

theorem tick_guards_skip:
  assumes "controller s = None \<or> frame s = None \<or> referenceSpace s = None
           \<or> (\<exists>c h. controller s = Some c \<and> hand c = Some h)"
  shows "tick decompose s = Inr (auto_hide s)
   \<and> auto_hide s =
       (if autoHide s then s\<lparr>object3D := (object3D s)\<lparr>visible := (controller s \<noteq> None)\<rparr>\<rparr> else s)
   \<and> emitted (auto_hide s) = emitted s
   \<and> buttonStates (auto_hide s) = buttonStates s
   \<and> buttonEventDetails (auto_hide s) = buttonEventDetails s
   \<and> axis (auto_hide s) = axis s
   \<and> changedAxes (auto_hide s) = changedAxes s
   \<and> pose (auto_hide s) = pose s
   \<and> matrix_elements (object3D (auto_hide s)) = matrix_elements (object3D s)
   \<and> position (object3D (auto_hide s)) = position (object3D s)
   \<and> rotation (object3D (auto_hide s)) = rotation (object3D s)
   \<and> scale (object3D (auto_hide s)) = scale (object3D s)"
  using tick_skip[OF assms] by (simp add: auto_hide_fields) (simp add: auto_hide_def)

text \<open>Two ticks that C8 covers: a component fresh from \<^verbatim>\<open>init\<close> (no controller), and the same
  component bound to a tracked hand while a frame and a reference space are known.\<close>

theorem tick_guards_skip_witness:
  "tick (\<lambda>m. ([], [], []))
     (init \<lparr>visible = True, matrix_elements = [], position = [], rotation = [], scale = []\<rparr>) =
   Inr (init \<lparr>visible = False, matrix_elements = [], position = [], rotation = [], scale = []\<rparr>)
   \<and> tick (\<lambda>m. ([], [], []))
     ((init \<lparr>visible = False, matrix_elements = [], position = [], rotation = [], scale = []\<rparr>)
        \<lparr>controller := Some \<lparr>hand = Some 7, gripSpace = 1,
             gamepad = Some \<lparr>buttons = [\<lparr>pressed = True, touched = True, val = Fin 1\<rparr>],
                              axes = [Fin 1]\<rparr>\<rparr>,
         frame := Some (\<lambda>a b. Some \<lparr>transform_matrix = [Fin 1]\<rparr>),
         referenceSpace := Some 2\<rparr>) =
   Inr ((init \<lparr>visible = True, matrix_elements = [], position = [], rotation = [], scale = []\<rparr>)
        \<lparr>controller := Some \<lparr>hand = Some 7, gripSpace = 1,
             gamepad = Some \<lparr>buttons = [\<lparr>pressed = True, touched = True, val = Fin 1\<rparr>],
                              axes = [Fin 1]\<rparr>\<rparr>,
         frame := Some (\<lambda>a b. Some \<lparr>transform_matrix = [Fin 1]\<rparr>),
         referenceSpace := Some 2\<rparr>)"
proof -
  let ?d = "\<lambda>m::jsnum list. ([]::jsnum list, []::jsnum list, []::jsnum list)"
  let ?s1 = "init \<lparr>visible = True, matrix_elements = [], position = [], rotation = [], scale = []\<rparr>"
  let ?c = "\<lparr>hand = Some 7, gripSpace = 1,
             gamepad = Some \<lparr>buttons = [\<lparr>pressed = True, touched = True, val = Fin 1\<rparr>],
                              axes = [Fin 1]\<rparr>\<rparr>"
  let ?s2 = "(init \<lparr>visible = False, matrix_elements = [], position = [], rotation = [], scale = []\<rparr>)
        \<lparr>controller := Some ?c,
         frame := Some (\<lambda>a b. Some \<lparr>transform_matrix = [Fin 1]\<rparr>),
         referenceSpace := Some 2\<rparr>"
  have g1: "controller ?s1 = None \<or> frame ?s1 = None \<or> referenceSpace ?s1 = None
           \<or> (\<exists>c h. controller ?s1 = Some c \<and> hand c = Some h)"
    by (simp add: init_def)
  have "controller ?s2 = Some ?c \<and> hand ?c = Some 7" by simp
  then have g2: "controller ?s2 = None \<or> frame ?s2 = None \<or> referenceSpace ?s2 = None
           \<or> (\<exists>c h. controller ?s2 = Some c \<and> hand c = Some h)"
    by blast
  have t1: "tick ?d ?s1 = Inr (auto_hide ?s1)"
    using tick_guards_skip[OF g1, of ?d] by blast
  have t2: "tick ?d ?s2 = Inr (auto_hide ?s2)"
    using tick_guards_skip[OF g2, of ?d] by blast
  have a1: "auto_hide ?s1 =
      init \<lparr>visible = False, matrix_elements = [], position = [], rotation = [], scale = []\<rparr>"
    by (simp add: auto_hide_def init_def)
  have a2: "auto_hide ?s2 =
      (init \<lparr>visible = True, matrix_elements = [], position = [], rotation = [], scale = []\<rparr>)
        \<lparr>controller := Some ?c,
         frame := Some (\<lambda>a b. Some \<lparr>transform_matrix = [Fin 1]\<rparr>),
         referenceSpace := Some 2\<rparr>"
    by (simp add: auto_hide_def init_def)
  show ?thesis
    using t1 t2 unfolding a1 a2 by simp
qed

text \<open>
  Claim C10.  On a tick with a controller that is not a tracked hand, a frame and a
  reference space, where the frame yields no pose for the controller's grip space: the tick
  is \<^verbatim>\<open>updateButtons\<close> on the component with the pose cleared, it returns normally, and
  the object's matrix, position, rotation and scale are as before.  Button and axis
  processing is that of a tick with a pose: had the frame yielded any pose, the tick would
  have ended with the same button states, detail objects, axis vector, flags and events.
\<close>

theorem tick_without_pose:
  assumes "controller s = Some c" and "hand c = None" and "frame s = Some getPose"
    and "referenceSpace s = Some space" and "getPose (gripSpace c) space = None"
  shows "tick decompose s = updateButtons ((auto_hide s)\<lparr>pose := None\<rparr>)
   \<and> (\<exists>s'. tick decompose s = Inr s'
        \<and> pose s' = None
        \<and> matrix_elements (object3D s') = matrix_elements (object3D s)
        \<and> position (object3D s') = position (object3D s)
        \<and> rotation (object3D s') = rotation (object3D s)
        \<and> scale (object3D s') = scale (object3D s)
        \<and> (\<forall>getPose' p. getPose' (gripSpace c) space = Some p \<longrightarrow>
             (\<exists>s''. tick decompose (s\<lparr>frame := Some getPose'\<rparr>) = Inr s''
                \<and> buttonStates s'' = buttonStates s'
                \<and> buttonEventDetails s'' = buttonEventDetails s'
                \<and> axis s'' = axis s'
                \<and> changedAxes s'' = changedAxes s'
                \<and> emitted s'' = emitted s')))"
proof -
  let ?z = "(auto_hide s)\<lparr>pose := None\<rparr>"
  have t: "tick decompose s = updateButtons ?z"
    using tick_run[OF assms(1-4), of decompose] assms(5) by (simp add: updatePose_def)
  obtain bs ds ev ca ax where
    u: "updateButtons ?z = Inr (?z\<lparr>buttonStates := bs, buttonEventDetails := ds, emitted := ev,
              changedAxes := ca, axis := ax\<rparr>)"
    using updateButtons_frame by blast
  let ?s' = "?z\<lparr>buttonStates := bs, buttonEventDetails := ds, emitted := ev,
              changedAxes := ca, axis := ax\<rparr>"
  have other: "\<exists>s''. tick decompose (s\<lparr>frame := Some getPose'\<rparr>) = Inr s''
                \<and> buttonStates s'' = buttonStates ?s'
                \<and> buttonEventDetails s'' = buttonEventDetails ?s'
                \<and> axis s'' = axis ?s'
                \<and> changedAxes s'' = changedAxes ?s'
                \<and> emitted s'' = emitted ?s'"
    if gp: "getPose' (gripSpace c) space = Some p" for getPose' p
  proof -
    let ?sp = "s\<lparr>frame := Some getPose'\<rparr>"
    have "tick decompose ?sp =
       updateButtons (updatePose decompose ((auto_hide ?sp)\<lparr>pose := getPose' (gripSpace c) space\<rparr>))"
      by (rule tick_run) (use assms in simp_all)
    moreover obtain ob where
      "updatePose decompose ((auto_hide ?sp)\<lparr>pose := getPose' (gripSpace c) space\<rparr>) =
         with_view (Some getPose') (Some p) ob ?z"
    proof -
      obtain pos rot sc where d: "decompose (transform_matrix p) = (pos, rot, sc)"
        by (cases "decompose (transform_matrix p)")
      have "updatePose decompose ((auto_hide ?sp)\<lparr>pose := getPose' (gripSpace c) space\<rparr>) =
         with_view (Some getPose') (Some p)
           ((object3D (auto_hide s))\<lparr>matrix_elements := transform_matrix p, position := pos,
                                          rotation := rot, scale := sc\<rparr>) ?z"
        using gp d by (simp add: updatePose_def with_view_def auto_hide_def)
      then show ?thesis using that by blast
    qed
    ultimately have "tick decompose ?sp = Inr (with_view (Some getPose') (Some p) ob ?s')"
      using u by (simp add: updateButtons_view)
    moreover have "buttonStates (with_view (Some getPose') (Some p) ob ?s') = buttonStates ?s'"
      "buttonEventDetails (with_view (Some getPose') (Some p) ob ?s') = buttonEventDetails ?s'"
      "axis (with_view (Some getPose') (Some p) ob ?s') = axis ?s'"
      "changedAxes (with_view (Some getPose') (Some p) ob ?s') = changedAxes ?s'"
      "emitted (with_view (Some getPose') (Some p) ob ?s') = emitted ?s'"
      by (simp_all add: with_view_def)
    ultimately show ?thesis by blast
  qed
  have "tick decompose s = Inr ?s'" using t u by simp
  moreover have "pose ?s' = None" by simp
  moreover have "matrix_elements (object3D ?s') = matrix_elements (object3D s)"
    "position (object3D ?s') = position (object3D s)"
    "rotation (object3D ?s') = rotation (object3D s)"
    "scale (object3D ?s') = scale (object3D s)"
    by (simp_all add: auto_hide_fields)
  ultimately have "\<exists>s'. tick decompose s = Inr s'
        \<and> pose s' = None
        \<and> matrix_elements (object3D s') = matrix_elements (object3D s)
        \<and> position (object3D s') = position (object3D s)
        \<and> rotation (object3D s') = rotation (object3D s)
        \<and> scale (object3D s') = scale (object3D s)
        \<and> (\<forall>getPose' p. getPose' (gripSpace c) space = Some p \<longrightarrow>
             (\<exists>s''. tick decompose (s\<lparr>frame := Some getPose'\<rparr>) = Inr s''
                \<and> buttonStates s'' = buttonStates s'
                \<and> buttonEventDetails s'' = buttonEventDetails s'
                \<and> axis s'' = axis s'
                \<and> changedAxes s'' = changedAxes s'
                \<and> emitted s'' = emitted s'))"
    using other by blast
  with t show ?thesis by blast
qed


lemma updateButtons_step:
  "controller s = Some c \<Longrightarrow> gamepad c = Some g \<Longrightarrow> check_buttons g 0 s = Inr s1 \<Longrightarrow>
   handleAxes s1 = Inr (ch, s2) \<Longrightarrow> updateButtons s = Inr s2"
  by (simp add: updateButtons_def)

text \<open>A tick that C10 covers: a component fresh from \<^verbatim>\<open>init\<close>, bound to a controller with one
  button (pressed and touched, value 0.5) and two axes reading \<^verbatim>\<open>[0.3, 0]\<close>, under a frame
  that yields no pose.  The object keeps its transform; the button and axis events are all
  there.\<close>

theorem tick_without_pose_witness:
  "tick (\<lambda>m. ([Fin 1], [Fin 2], [Fin 3]))
     ((init \<lparr>visible = False, matrix_elements = [Fin 9], position = [Fin 8], rotation = [Fin 7],
              scale = [Fin 6]\<rparr>)
        \<lparr>controller := Some \<lparr>hand = None, gripSpace = 0,
             gamepad = Some \<lparr>buttons = [\<lparr>pressed = True, touched = True, val = Fin (1/2)\<rparr>],
                              axes = [Fin (3/10), Fin 0]\<rparr>\<rparr>,
         frame := Some (\<lambda>a b. None),
         referenceSpace := Some 2\<rparr>) =
   Inr ((init \<lparr>visible = True, matrix_elements = [Fin 9], position = [Fin 8], rotation = [Fin 7],
              scale = [Fin 6]\<rparr>)
        \<lparr>controller := Some \<lparr>hand = None, gripSpace = 0,
             gamepad = Some \<lparr>buttons = [\<lparr>pressed = True, touched = True, val = Fin (1/2)\<rparr>],
                              axes = [Fin (3/10), Fin 0]\<rparr>\<rparr>,
         frame := Some (\<lambda>a b. None),
         referenceSpace := Some 2,
         buttonStates := [0 \<mapsto> \<lparr>pressed = True, touched = True, val = Fin (1/2)\<rparr>],
         buttonEventDetails := [0 \<mapsto> \<lparr>detail_id = 0, detail_state = 0\<rparr>],
         axis := [Fin (3/10), Fin 0],
         changedAxes := [True, False],
         emitted :=
           [(''buttondown'',
               ButtonDetail 0 (Some \<lparr>pressed = False, touched = False, val = Fin 0\<rparr>)),
            (''touchstart'',
               ButtonDetail 0 (Some \<lparr>pressed = True, touched = False, val = Fin 0\<rparr>)),
            (''buttonchanged'',
               ButtonDetail 0 (Some \<lparr>pressed = True, touched = True, val = Fin (1/2)\<rparr>)),
            (''axismove'', AxisDetail [Fin (3/10), Fin 0] [True, False])]\<rparr>)"
proof -
  let ?d = "\<lambda>m::jsnum list. ([Fin 1], [Fin 2], [Fin 3])"
  let ?b = "\<lparr>pressed = True, touched = True, val = Fin (1/2)\<rparr>"
  let ?g = "\<lparr>buttons = [?b], axes = [Fin (3/10), Fin 0]\<rparr>"
  let ?c = "\<lparr>hand = None, gripSpace = 0, gamepad = Some ?g\<rparr>"
  let ?gp = "\<lambda>(a::nat) (b::nat). None :: pose option"
  let ?s = "(init \<lparr>visible = False, matrix_elements = [Fin 9], position = [Fin 8],
                   rotation = [Fin 7], scale = [Fin 6]\<rparr>)
        \<lparr>controller := Some ?c, frame := Some ?gp, referenceSpace := Some 2\<rparr>"
  let ?z = "(init \<lparr>visible = True, matrix_elements = [Fin 9], position = [Fin 8],
                   rotation = [Fin 7], scale = [Fin 6]\<rparr>)
        \<lparr>controller := Some ?c, frame := Some ?gp, referenceSpace := Some 2\<rparr>"
  have h: "controller ?s = Some ?c" "hand ?c = None" "frame ?s = Some ?gp"
    "referenceSpace ?s = Some 2" "?gp (gripSpace ?c) 2 = None"
    by simp_all
  have g: "gamepad ?c = Some ?g" by simp
  have t: "tick ?d ?s = updateButtons ((auto_hide ?s)\<lparr>pose := None\<rparr>)"
    using tick_without_pose[OF h, of ?d] by blast
  have a: "(auto_hide ?s)\<lparr>pose := None\<rparr> = ?z"
    by (simp add: auto_hide_def init_def)
  have e: "ensure_button 0 ?z = ?z
       \<lparr>buttonStates := [0 \<mapsto> \<lparr>pressed = False, touched = False, val = Fin 0\<rparr>],
        buttonEventDetails := [0 \<mapsto> \<lparr>detail_id = 0, detail_state = 0\<rparr>]\<rparr>"
    by (simp add: ensure_button_def init_def)
  let ?s1 = "?z
       \<lparr>buttonStates := [0 \<mapsto> \<lparr>pressed = False, touched = False, val = Fin 0\<rparr>],
        buttonEventDetails := [0 \<mapsto> \<lparr>detail_id = 0, detail_state = 0\<rparr>]\<rparr>"
  have hb: "handleButton 0 ?b ?s1 = Inr (True, ?s1
       \<lparr>buttonStates := [0 \<mapsto> ?b],
        emitted :=
           [(''buttondown'',
               ButtonDetail 0 (Some \<lparr>pressed = False, touched = False, val = Fin 0\<rparr>)),
            (''touchstart'',
               ButtonDetail 0 (Some \<lparr>pressed = True, touched = False, val = Fin 0\<rparr>)),
            (''buttonchanged'', ButtonDetail 0 (Some ?b))]\<rparr>)"
    by (subst handleButton_eq[where prev = "\<lparr>pressed = False, touched = False, val = Fin 0\<rparr>"])
       (simp_all add: init_def BUTTONDOWN_def TOUCHSTART_def BUTTONCHANGED_def)
  let ?s2 = "?s1
       \<lparr>buttonStates := [0 \<mapsto> ?b],
        emitted :=
           [(''buttondown'',
               ButtonDetail 0 (Some \<lparr>pressed = False, touched = False, val = Fin 0\<rparr>)),
            (''touchstart'',
               ButtonDetail 0 (Some \<lparr>pressed = True, touched = False, val = Fin 0\<rparr>)),
            (''buttonchanged'', ButtonDetail 0 (Some ?b))]\<rparr>"
  have cb: "check_buttons ?g 0 ?z = Inr ?s2"
    by (subst check_buttons_step) (simp_all add: e hb check_buttons_done)
  have two: "[0..<2] = [0, Suc 0]" by (simp add: upt_rec)
  have fl: "axis_flags (axis ?s2) (axes ?g) = [True, False]"
    by (simp add: axis_flags_def axis_differs_def two init_def)
  have "axis_differs (axis ?s2) (axes ?g) 0"
    by (simp add: axis_differs_def init_def)
  then have df: "\<exists>j<length (axes ?g). axis_differs (axis ?s2) (axes ?g) j"
    by auto
  have ha: "handleAxes ?s2 = Inr (True, ?s2\<lparr>axis := [Fin (3/10), Fin 0],
        changedAxes := [True, False],
        emitted := emitted ?s2 @ [(''axismove'', AxisDetail [Fin (3/10), Fin 0] [True, False])]\<rparr>)"
    by (subst handleAxes_eq[where c = ?c and g = ?g]) (use df fl in \<open>simp_all add: AXISMOVE_def\<close>)
  have u: "updateButtons ?z = Inr (?s2\<lparr>axis := [Fin (3/10), Fin 0],
        changedAxes := [True, False],
        emitted := emitted ?s2 @ [(''axismove'', AxisDetail [Fin (3/10), Fin 0] [True, False])]\<rparr>)"
    by (rule updateButtons_step[OF _ g cb ha]) simp
  have "tick ?d ?s = Inr (?s2\<lparr>axis := [Fin (3/10), Fin 0],
        changedAxes := [True, False],
        emitted := emitted ?s2 @ [(''axismove'', AxisDetail [Fin (3/10), Fin 0] [True, False])]\<rparr>)"
    unfolding t a by (rule u)
  then show ?thesis by simp
qed

section \<open>Properties of propertyTypes.js\<close>

subsection \<open>Registration\<close>



lemma registerPropertyType_present:
  "reg name = Some d \<Longrightarrow>
   registerPropertyType name dv p s e c reg =
     (Some (Error (''Property type '' @ name @ '' is already registered.'')), reg)"
  by (simp add: registerPropertyType_def in_registry_def)

lemma registerPropertyType_fresh:
  "\<not> in_registry name reg \<Longrightarrow>
   registerPropertyType name dv p s e c reg =
     (None, reg(name \<mapsto>
              \<lparr>default_value = dv,
               parse = (case p of None \<Rightarrow> pure_parse defaultParse | Some f \<Rightarrow> f),
               stringify = (case s of None \<Rightarrow> defaultStringify | Some f \<Rightarrow> f),
               equals = (case e of None \<Rightarrow> defaultEquals | Some f \<Rightarrow> f),
               isCacheable = \<not> strict_eq c (JBool False)\<rparr>))"
  by (simp add: registerPropertyType_def)

lemma module_load: "fst (register_all (builtin_registrations co) Map.empty) = None"
  by (simp add: builtin_registrations_def registerPropertyType_def in_registry_def
      Object_prototype_keys_def)

lemma dom_propertyTypes: "dom (propertyTypes co) = set builtin_names"
  by (simp add: propertyTypes_def builtin_registrations_def registerPropertyType_def in_registry_def
      Object_prototype_keys_def builtin_names_def insert_commute)


lemma cacheable_builtin:
  assumes "propertyTypes co name = Some d"
  shows "(\<not> isCacheable d) = (name = ''selector'' \<or> name = ''selectorAll'')"
proof -
  have all: "\<forall>n \<in> set builtin_names. \<forall>d. propertyTypes co n = Some d \<longrightarrow>
      ((\<not> isCacheable d) = (n = ''selector'' \<or> n = ''selectorAll''))"
    unfolding builtin_names_def
    by (simp add: propertyTypes_def builtin_registrations_def registerPropertyType_def
        in_registry_def Object_prototype_keys_def strict_eq_def)
  have "name \<in> dom (propertyTypes co)" using assms by blast
  then have "name \<in> set builtin_names" by (simp only: dom_propertyTypes)
  with all assms show ?thesis by blast
qed

text \<open>
  Claim C3.  Registering a name that the registry holds throws the error
  \<^verbatim>\<open>Property type <name> is already registered.\<close> and leaves the registry, and so the
  entry of the first registration, as it was, whatever the arguments of the call.  In
  particular a registration that succeeded, repeated with any other arguments, fails and
  keeps the descriptor of the first call.
\<close>

theorem register_twice_fails:
  "(reg name = Some d \<longrightarrow>
      registerPropertyType name dv p s e c reg =
        (Some (Error (''Property type '' @ name @ '' is already registered.'')), reg)
      \<and> snd (registerPropertyType name dv p s e c reg) name = Some d)
   \<and> (fst (registerPropertyType name dv1 p1 s1 e1 c1 reg) = None \<longrightarrow>
      registerPropertyType name dv p s e c (snd (registerPropertyType name dv1 p1 s1 e1 c1 reg)) =
        (Some (Error (''Property type '' @ name @ '' is already registered.'')),
         snd (registerPropertyType name dv1 p1 s1 e1 c1 reg))
      \<and> snd (registerPropertyType name dv1 p1 s1 e1 c1 reg) name =
          Some \<lparr>default_value = dv1,
               parse = (case p1 of None \<Rightarrow> pure_parse defaultParse | Some f \<Rightarrow> f),
               stringify = (case s1 of None \<Rightarrow> defaultStringify | Some f \<Rightarrow> f),
               equals = (case e1 of None \<Rightarrow> defaultEquals | Some f \<Rightarrow> f),
               isCacheable = \<not> strict_eq c1 (JBool False)\<rparr>)"
proof (intro conjI impI)
  assume a: "reg name = Some d"
  show "registerPropertyType name dv p s e c reg =
        (Some (Error (''Property type '' @ name @ '' is already registered.'')), reg)"
    by (rule registerPropertyType_present[where reg = reg and name = name, OF a])
  then show "snd (registerPropertyType name dv p s e c reg) name = Some d"
    using a by simp
next
  assume f: "fst (registerPropertyType name dv1 p1 s1 e1 c1 reg) = None"
  then have fresh: "\<not> in_registry name reg"
    by (auto simp: registerPropertyType_def split: if_splits)
  note r1 = registerPropertyType_fresh[OF fresh, of dv1 p1 s1 e1 c1]
  show "snd (registerPropertyType name dv1 p1 s1 e1 c1 reg) name =
          Some \<lparr>default_value = dv1,
               parse = (case p1 of None \<Rightarrow> pure_parse defaultParse | Some f \<Rightarrow> f),
               stringify = (case s1 of None \<Rightarrow> defaultStringify | Some f \<Rightarrow> f),
               equals = (case e1 of None \<Rightarrow> defaultEquals | Some f \<Rightarrow> f),
               isCacheable = \<not> strict_eq c1 (JBool False)\<rparr>"
    unfolding r1 by simp
  then show "registerPropertyType name dv p s e c (snd (registerPropertyType name dv1 p1 s1 e1 c1 reg)) =
        (Some (Error (''Property type '' @ name @ '' is already registered.'')),
         snd (registerPropertyType name dv1 p1 s1 e1 c1 reg))"
    by (rule registerPropertyType_present[
          where reg = "snd (registerPropertyType name dv1 p1 s1 e1 c1 reg)" and name = name])
qed

text \<open>Registering \<^verbatim>\<open>int\<close> once more after the module is loaded, and registering a new type
  twice.\<close>

theorem register_twice_fails_witness:
  "registerPropertyType ''int'' (JNum (Fin 1)) None None None JUndefined
       (propertyTypes no_coordinates) =
     (Some (Error ''Property type int is already registered.''), propertyTypes no_coordinates)
   \<and> registerPropertyType ''angle'' (JNum (Fin 1)) None None None (JBool False)
       (snd (registerPropertyType ''angle'' (JNum (Fin 0)) None None None JUndefined
              (propertyTypes no_coordinates))) =
     (Some (Error ''Property type angle is already registered.''),
      snd (registerPropertyType ''angle'' (JNum (Fin 0)) None None None JUndefined
              (propertyTypes no_coordinates)))"
proof -
  let ?reg = "propertyTypes no_coordinates"
  have i: "?reg ''int'' =
      Some \<lparr>default_value = JNum (Fin 0), parse = reading_parse intParse,
            stringify = defaultStringify, equals = defaultEquals, isCacheable = True\<rparr>"
    by (simp add: propertyTypes_def builtin_registrations_def registerPropertyType_def
        in_registry_def Object_prototype_keys_def strict_eq_def)
  have "?reg ''angle'' = None"
    by (simp add: propertyTypes_def builtin_registrations_def registerPropertyType_def
        in_registry_def Object_prototype_keys_def strict_eq_def)
  then have f: "fst (registerPropertyType ''angle'' (JNum (Fin 0)) None None None JUndefined ?reg)
      = None"
    by (simp add: registerPropertyType_def in_registry_def Object_prototype_keys_def)
  from register_twice_fails[of ?reg "''int''" _ "JNum (Fin 1)" None None None JUndefined] i
  have one: "registerPropertyType ''int'' (JNum (Fin 1)) None None None JUndefined ?reg =
     (Some (Error (''Property type '' @ ''int'' @ '' is already registered.'')), ?reg)"
    by blast
  from register_twice_fails[of ?reg "''angle''" _ "JNum (Fin 1)" None None None "JBool False"
      "JNum (Fin 0)" None None None JUndefined] f
  have two: "registerPropertyType ''angle'' (JNum (Fin 1)) None None None (JBool False)
       (snd (registerPropertyType ''angle'' (JNum (Fin 0)) None None None JUndefined ?reg)) =
     (Some (Error (''Property type '' @ ''angle'' @ '' is already registered.'')),
      snd (registerPropertyType ''angle'' (JNum (Fin 0)) None None None JUndefined ?reg))"
    by blast
  show ?thesis using one two by simp
qed

lemma defaultStringify_simps:
  "defaultStringify JNull w = Inr (JStr ''null'')"
  "defaultStringify JUndefined w = Inl TypeError"
  "defaultStringify (JBool b) w = Inr (JStr (if b then ''true'' else ''false''))"
  "defaultStringify (JStr s) w = Inr (JStr s)"
  "defaultStringify (JNum n) w = Inr (JStr (num_toString w n))"
  by (simp_all add: defaultStringify_def toString_def)

text \<open>
  Claim C7.  Registering a name that is not there yet, with the four optional arguments
  left out, stores a descriptor with the given default whose \<^verbatim>\<open>parse\<close> returns its
  first argument and leaves the world alone, whose \<^verbatim>\<open>stringify\<close> gives the string
  \<^verbatim>\<open>null\<close> for \<^verbatim>\<open>null\<close> and \<^verbatim>\<open>value.toString()\<close> for every other value (the text of a
  boolean, a string itself, and a \<^verbatim>\<open>TypeError\<close> for \<^verbatim>\<open>undefined\<close>, which has no
  \<^verbatim>\<open>toString\<close>), whose \<^verbatim>\<open>equals\<close> is \<^verbatim>\<open>===\<close> (value equality on strings and
  booleans, identity on arrays) and whose \<^verbatim>\<open>isCacheable\<close> is true.  Once the module is
  loaded the registry holds the seventeen built-in names, and \<^verbatim>\<open>isCacheable\<close> is false for
  \<^verbatim>\<open>selector\<close> and \<^verbatim>\<open>selectorAll\<close> and for no other of them.
\<close>

theorem register_optional_defaults:
  assumes "\<not> in_registry name reg"
  shows "(\<exists>d. registerPropertyType name dv None None None JUndefined reg = (None, reg(name \<mapsto> d))
      \<and> default_value d = dv
      \<and> (\<forall>v defaultValue target w. parse d v defaultValue target w = (Inr v, w))
      \<and> (\<forall>w. stringify d JNull w = Inr (JStr ''null''))
      \<and> (\<forall>v w. v \<noteq> JNull \<longrightarrow>
            stringify d v w = (case toString v w of Inl e \<Rightarrow> Inl e | Inr s \<Rightarrow> Inr (JStr s)))
      \<and> (\<forall>b w. stringify d (JBool b) w = Inr (JStr (if b then ''true'' else ''false'')))
      \<and> (\<forall>s w. stringify d (JStr s) w = Inr (JStr s))
      \<and> (\<forall>w. stringify d JUndefined w = Inl TypeError)
      \<and> (\<forall>a b. equals d a b = strict_eq a b)
      \<and> (\<forall>s t. equals d (JStr s) (JStr t) = (s = t))
      \<and> (\<forall>a b. equals d (JBool a) (JBool b) = (a = b))
      \<and> (\<forall>i xs j ys. equals d (JArr i xs) (JArr j ys) = (i = j))
      \<and> isCacheable d)
   \<and> dom (propertyTypes co) = set builtin_names
   \<and> (\<forall>n d. propertyTypes co n = Some d \<longrightarrow>
         (\<not> isCacheable d) = (n = ''selector'' \<or> n = ''selectorAll''))"
proof -
  let ?d = "\<lparr>default_value = dv, parse = pure_parse defaultParse, stringify = defaultStringify,
             equals = defaultEquals, isCacheable = True\<rparr>"
  have r: "registerPropertyType name dv None None None JUndefined reg = (None, reg(name \<mapsto> ?d))"
    using registerPropertyType_fresh[OF assms, of dv None None None JUndefined]
    by (simp add: strict_eq_def)
  have p: "\<forall>v defaultValue target w. parse ?d v defaultValue target w = (Inr v, w)"
    by (simp add: pure_parse_def defaultParse_def)
  have s: "\<forall>w. stringify ?d JNull w = Inr (JStr ''null'')"
    "\<forall>v w. v \<noteq> JNull \<longrightarrow>
            stringify ?d v w = (case toString v w of Inl e \<Rightarrow> Inl e | Inr s \<Rightarrow> Inr (JStr s))"
    "\<forall>b w. stringify ?d (JBool b) w = Inr (JStr (if b then ''true'' else ''false''))"
    "\<forall>s w. stringify ?d (JStr s) w = Inr (JStr s)"
    "\<forall>w. stringify ?d JUndefined w = Inl TypeError"
    by (simp_all add: defaultStringify_simps) (simp add: defaultStringify_def)
  have e: "\<forall>a b. equals ?d a b = strict_eq a b"
    "\<forall>s t. equals ?d (JStr s) (JStr t) = (s = t)"
    "\<forall>a b. equals ?d (JBool a) (JBool b) = (a = b)"
    "\<forall>i xs j ys. equals ?d (JArr i xs) (JArr j ys) = (i = j)"
    by (auto simp: defaultEquals_def strict_eq_def)
  have "default_value ?d = dv" "isCacheable ?d" by simp_all
  with r p s e have first: "\<exists>d. registerPropertyType name dv None None None JUndefined reg =
        (None, reg(name \<mapsto> d))
      \<and> default_value d = dv
      \<and> (\<forall>v defaultValue target w. parse d v defaultValue target w = (Inr v, w))
      \<and> (\<forall>w. stringify d JNull w = Inr (JStr ''null''))
      \<and> (\<forall>v w. v \<noteq> JNull \<longrightarrow>
            stringify d v w = (case toString v w of Inl e \<Rightarrow> Inl e | Inr s \<Rightarrow> Inr (JStr s)))
      \<and> (\<forall>b w. stringify d (JBool b) w = Inr (JStr (if b then ''true'' else ''false'')))
      \<and> (\<forall>s w. stringify d (JStr s) w = Inr (JStr s))
      \<and> (\<forall>w. stringify d JUndefined w = Inl TypeError)
      \<and> (\<forall>a b. equals d a b = strict_eq a b)
      \<and> (\<forall>s t. equals d (JStr s) (JStr t) = (s = t))
      \<and> (\<forall>a b. equals d (JBool a) (JBool b) = (a = b))
      \<and> (\<forall>i xs j ys. equals d (JArr i xs) (JArr j ys) = (i = j))
      \<and> isCacheable d"
    by (intro exI[of _ ?d] conjI)
  show ?thesis
    using first dom_propertyTypes[of co] cacheable_builtin[of co] by blast
qed

text \<open>A new type \<^verbatim>\<open>angle\<close> registered with its default only, after the module is loaded.\<close>

theorem register_optional_defaults_witness:
  "registerPropertyType ''angle'' (JNum (Fin 0)) None None None JUndefined
       (propertyTypes no_coordinates) =
     (None, (propertyTypes no_coordinates)(''angle'' \<mapsto>
        \<lparr>default_value = JNum (Fin 0), parse = pure_parse defaultParse,
         stringify = defaultStringify, equals = defaultEquals, isCacheable = True\<rparr>))
   \<and> dom (propertyTypes no_coordinates) = set builtin_names"
proof -
  let ?reg = "propertyTypes no_coordinates"
  have "?reg ''angle'' = None"
    by (simp add: propertyTypes_def builtin_registrations_def registerPropertyType_def
        in_registry_def Object_prototype_keys_def strict_eq_def)
  then have fresh: "\<not> in_registry ''angle'' ?reg"
    by (simp add: in_registry_def Object_prototype_keys_def)
  from register_optional_defaults[OF fresh, of "JNum (Fin 0)" no_coordinates]
  have "dom ?reg = set builtin_names" by blast
  moreover have "registerPropertyType ''angle'' (JNum (Fin 0)) None None None JUndefined ?reg =
     (None, ?reg(''angle'' \<mapsto>
        \<lparr>default_value = JNum (Fin 0), parse = pure_parse defaultParse,
         stringify = defaultStringify, equals = defaultEquals, isCacheable = True\<rparr>))"
    using fresh by (simp add: registerPropertyType_def strict_eq_def)
  ultimately show ?thesis by blast
qed

subsection \<open>The array type\<close>

lemma split_on_not_Nil: "split_on c s \<noteq> []"
  by (induction s) (auto split: list.splits)

lemma unsplit_split_on: "unsplit c (split_on c s) = s"
proof (induction s)
  case Nil
  show ?case by simp
next
  case (Cons x xs)
  obtain seg segs where r: "split_on c xs = seg # segs"
    using split_on_not_Nil[of c xs] by (cases "split_on c xs") auto
  show ?case
  proof (cases "x = c")
    case True
    then show ?thesis using Cons r by simp
  next
    case False
    then show ?thesis using Cons r by (cases segs) auto
  qed
qed

lemma split_on_no_sep: "seg \<in> set (split_on c s) \<Longrightarrow> c \<notin> set seg"
proof (induction s arbitrary: seg)
  case Nil
  then show ?case by simp
next
  case (Cons x xs)
  obtain sg sgs where r: "split_on c xs = sg # sgs"
    using split_on_not_Nil[of c xs] by (cases "split_on c xs") auto
  show ?case
  proof (cases "x = c")
    case True
    then show ?thesis using Cons by auto
  next
    case False
    have "c \<notin> set sg" using Cons.IH[of sg] r by simp
    moreover have "\<And>t. t \<in> set sgs \<Longrightarrow> c \<notin> set t" using Cons.IH r by simp
    ultimately show ?thesis using Cons.prems False r by auto
  qed
qed

lemma trim_decompose:
  "\<exists>pre post. s = pre @ trim s @ post \<and> (\<forall>c \<in> set pre. is_space c) \<and> (\<forall>c \<in> set post. is_space c)"
proof -
  let ?t = "dropWhile is_space s"
  have a: "s = takeWhile is_space s @ ?t" by simp
  have "rev (takeWhile is_space (rev ?t) @ dropWhile is_space (rev ?t)) = ?t"
    by (simp only: takeWhile_dropWhile_id rev_rev_ident)
  then have "rev (dropWhile is_space (rev ?t)) @ rev (takeWhile is_space (rev ?t)) = ?t"
    by (simp only: rev_append)
  then have b: "?t = trim s @ rev (takeWhile is_space (rev ?t))"
    by (simp only: trim_def)
  have c: "\<forall>c \<in> set (takeWhile is_space s). is_space c"
    by (auto dest: set_takeWhileD)
  have d: "\<forall>c \<in> set (rev (takeWhile is_space (rev ?t))). is_space c"
    by (auto dest: set_takeWhileD)
  have "s = takeWhile is_space s @ trim s @ rev (takeWhile is_space (rev ?t))"
    using a b by metis
  with c d show ?thesis by blast
qed

lemma trim_ends:
  assumes "trim s \<noteq> []"
  shows "\<not> is_space (hd (trim s)) \<and> \<not> is_space (last (trim s))"
proof -
  let ?t = "dropWhile is_space s"
  let ?u = "dropWhile is_space (rev ?t)"
  have u: "?u \<noteq> []" using assms by (simp add: trim_def)
  then have l: "\<not> is_space (hd ?u)" by (rule hd_dropWhile)
  have "last (trim s) = hd ?u" using u by (simp add: trim_def last_rev)
  with l have 1: "\<not> is_space (last (trim s))" by simp
  have t: "?t \<noteq> []"
  proof
    assume "?t = []"
    then have "?u = []" by (simp only: rev.simps dropWhile.simps)
    with u show False by blast
  qed
  then have h: "\<not> is_space (hd ?t)" by (rule hd_dropWhile)
  have "rev (takeWhile is_space (rev ?t) @ ?u) = ?t"
    by (simp only: takeWhile_dropWhile_id rev_rev_ident)
  then have "rev ?u @ rev (takeWhile is_space (rev ?t)) = ?t"
    by (simp only: rev_append)
  then have "?t = trim s @ rev (takeWhile is_space (rev ?t))" by (simp only: trim_def)
  then have "hd ?t = hd (trim s)" using assms by (metis hd_append2)
  with h have "\<not> is_space (hd (trim s))" by simp
  with 1 show ?thesis by simp
qed

lemma arrayParse_array: "arrayParse (JArr a xs) w = (JArr a xs, w)"
  by (simp add: arrayParse_def)

lemma arrayParse_string:
  "s \<noteq> [] \<Longrightarrow>
   arrayParse (JStr s) w =
     (JArr (next_id w) (map (\<lambda>str. JStr (trim str)) (split_on CHR '','' s)),
      w\<lparr>next_id := Suc (next_id w)\<rparr>)"
  by (simp add: arrayParse_def new_array_def str_of_def)

lemma arrayParse_other:
  "\<not> isArray v \<Longrightarrow> (\<And>s. v = JStr s \<Longrightarrow> s = []) \<Longrightarrow>
   arrayParse v w = (JArr (next_id w) [], w\<lparr>next_id := Suc (next_id w)\<rparr>)"
  by (cases v) (simp_all add: arrayParse_def new_array_def)

lemma arrayParse_example:
  "arrayParse (JStr ''a, b ,c'') w =
     (JArr (next_id w) [JStr ''a'', JStr ''b'', JStr ''c''], w\<lparr>next_id := Suc (next_id w)\<rparr>)"
  by (simp add: arrayParse_def new_array_def str_of_def trim_def is_space_def)

lemma arrayParse_empty:
  "arrayParse (JStr '''') w = (JArr (next_id w) [], w\<lparr>next_id := Suc (next_id w)\<rparr>)"
  by (simp add: arrayParse_def new_array_def)

text \<open>
  Claim C5 as stated fails on the empty string: it is a string, splitting it on commas
  gives one empty segment, and \<^verbatim>\<open>arrayParse\<close> returns the empty array, because the test
  \<^verbatim>\<open>!value\<close> comes before the split.
\<close>

theorem arrayParse_empty_string_counterexample:
  "fst (arrayParse (JStr '''') no_document) = JArr 4 []
   \<and> split_on CHR '','' '''' = ['''']
   \<and> trim '''' = ''''
   \<and> fst (arrayParse (JStr '''') no_document) \<noteq> JArr 4 [JStr (trim '''')]"
  by (simp add: arrayParse_empty no_document_def trim_def)

text \<open>
  Claim C5, amended.  \<^verbatim>\<open>arrayParse\<close> returns an array as it is (the same object, and no
  new one is made).  For a string that is not empty it returns a new array with the
  trimmed segments of the string between its commas: the segments hold no comma and give
  the string back when joined by commas, and a trimmed segment is the segment without the
  white space at its two ends.  For every other input, and for the empty string, it
  returns a new empty array.
\<close>

theorem arrayParse_cases:
  "arrayParse (JArr a xs) w = (JArr a xs, w)
   \<and> (s \<noteq> [] \<longrightarrow>
        arrayParse (JStr s) w =
          (JArr (next_id w) (map (\<lambda>str. JStr (trim str)) (split_on CHR '','' s)),
           w\<lparr>next_id := Suc (next_id w)\<rparr>))
   \<and> unsplit CHR '','' (split_on CHR '','' s) = s
   \<and> (\<forall>seg \<in> set (split_on CHR '','' s). CHR '','' \<notin> set seg)
   \<and> (\<forall>seg. \<exists>pre post. seg = pre @ trim seg @ post
          \<and> (\<forall>c \<in> set pre. is_space c) \<and> (\<forall>c \<in> set post. is_space c))
   \<and> (\<forall>seg. trim seg \<noteq> [] \<longrightarrow> \<not> is_space (hd (trim seg)) \<and> \<not> is_space (last (trim seg)))
   \<and> arrayParse (JStr ''a, b ,c'') w =
        (JArr (next_id w) [JStr ''a'', JStr ''b'', JStr ''c''], w\<lparr>next_id := Suc (next_id w)\<rparr>)
   \<and> arrayParse (JArr a [JNum (Fin 1), JNum (Fin 2)]) w = (JArr a [JNum (Fin 1), JNum (Fin 2)], w)
   \<and> (\<not> isArray v \<and> (\<forall>t. v = JStr t \<longrightarrow> t = []) \<longrightarrow>
        arrayParse v w = (JArr (next_id w) [], w\<lparr>next_id := Suc (next_id w)\<rparr>))
   \<and> arrayParse (JStr '''') w = (JArr (next_id w) [], w\<lparr>next_id := Suc (next_id w)\<rparr>)
   \<and> arrayParse JNull w = (JArr (next_id w) [], w\<lparr>next_id := Suc (next_id w)\<rparr>)
   \<and> arrayParse JUndefined w = (JArr (next_id w) [], w\<lparr>next_id := Suc (next_id w)\<rparr>)
   \<and> arrayParse (JNum n) w = (JArr (next_id w) [], w\<lparr>next_id := Suc (next_id w)\<rparr>)
   \<and> arrayParse (JBool b) w = (JArr (next_id w) [], w\<lparr>next_id := Suc (next_id w)\<rparr>)
   \<and> arrayParse (JObj i ps) w = (JArr (next_id w) [], w\<lparr>next_id := Suc (next_id w)\<rparr>)"
proof -
  have other: "\<not> isArray v \<and> (\<forall>t. v = JStr t \<longrightarrow> t = []) \<longrightarrow>
        arrayParse v w = (JArr (next_id w) [], w\<lparr>next_id := Suc (next_id w)\<rparr>)" for v
    using arrayParse_other[of v w] by blast
  have str: "s \<noteq> [] \<longrightarrow>
        arrayParse (JStr s) w =
          (JArr (next_id w) (map (\<lambda>str. JStr (trim str)) (split_on CHR '','' s)),
           w\<lparr>next_id := Suc (next_id w)\<rparr>)"
    using arrayParse_string[of s w] by blast
  have nosep: "\<forall>seg \<in> set (split_on CHR '','' s). CHR '','' \<notin> set seg"
    using split_on_no_sep by blast
  have tr: "\<forall>seg. \<exists>pre post. seg = pre @ trim seg @ post
          \<and> (\<forall>c \<in> set pre. is_space c) \<and> (\<forall>c \<in> set post. is_space c)"
    using trim_decompose by blast
  have te: "\<forall>seg. trim seg \<noteq> [] \<longrightarrow> \<not> is_space (hd (trim seg)) \<and> \<not> is_space (last (trim seg))"
    using trim_ends by blast
  have ex: "arrayParse JNull w = (JArr (next_id w) [], w\<lparr>next_id := Suc (next_id w)\<rparr>)"
    "arrayParse JUndefined w = (JArr (next_id w) [], w\<lparr>next_id := Suc (next_id w)\<rparr>)"
    "arrayParse (JNum n) w = (JArr (next_id w) [], w\<lparr>next_id := Suc (next_id w)\<rparr>)"
    "arrayParse (JBool b) w = (JArr (next_id w) [], w\<lparr>next_id := Suc (next_id w)\<rparr>)"
    "arrayParse (JObj i ps) w = (JArr (next_id w) [], w\<lparr>next_id := Suc (next_id w)\<rparr>)"
    by (simp_all add: arrayParse_def new_array_def)
  show ?thesis
    by (intro conjI arrayParse_array str unsplit_split_on nosep tr te arrayParse_example
        other arrayParse_empty ex)
qed

text \<open>The string \<^verbatim>\<open>x,y\<close>, and the number 3, in the world without a document.\<close>

theorem arrayParse_cases_witness:
  "arrayParse (JStr ''x,y'') no_document =
     (JArr 4 [JStr ''x'', JStr ''y''], no_document\<lparr>next_id := 5\<rparr>)
   \<and> arrayParse (JNum (Fin 3)) no_document = (JArr 4 [], no_document\<lparr>next_id := 5\<rparr>)"
proof -
  note t = arrayParse_cases[of _ _ no_document "''x,y''" "JNum (Fin 3)"]
  have a: "''x,y'' \<noteq> []" by simp
  have b: "\<not> isArray (JNum (Fin 3)) \<and> (\<forall>t. JNum (Fin 3) = JStr t \<longrightarrow> t = [])" by simp
  have n: "next_id no_document = 4" by (simp add: no_document_def)
  from t a have "arrayParse (JStr ''x,y'') no_document =
          (JArr (next_id no_document) (map (\<lambda>str. JStr (trim str)) (split_on CHR '','' ''x,y'')),
           no_document\<lparr>next_id := Suc (next_id no_document)\<rparr>)"
    by blast
  moreover from t b have "arrayParse (JNum (Fin 3)) no_document =
      (JArr (next_id no_document) [], no_document\<lparr>next_id := Suc (next_id no_document)\<rparr>)"
    by blast
  ultimately show ?thesis
    unfolding n by (simp add: trim_def is_space_def)
qed

text \<open>
  Claim C9.  On the empty string \<^verbatim>\<open>arrayParse\<close> returns a new empty array, although
  splitting the empty string gives one empty segment: the test \<^verbatim>\<open>!value\<close> stands before
  the split.  So the round trip of the empty array closes: it prints as the empty string,
  which parses to an empty array, equal to the first by \<^verbatim>\<open>arrayEquals\<close>; an array holding
  one empty string would not be.
\<close>

theorem arrayParse_empty_string:
  "arrayParse (JStr '''') w = (JArr (next_id w) [], w\<lparr>next_id := Suc (next_id w)\<rparr>)
   \<and> split_on CHR '','' '''' = ['''']
   \<and> arrayStringify (JArr a []) w = Inr (JStr '''')
   \<and> arrayEquals (fst (arrayParse (JStr '''') w)) (JArr a [])
   \<and> \<not> arrayEquals (JArr (next_id w) (map (\<lambda>str. JStr (trim str)) (split_on CHR '','' '''')))
         (JArr a [])"
  by (simp add: arrayParse_empty arrayStringify_def arrayEquals_def)

theorem arrayParse_empty_string_witness:
  "arrayParse (JStr '''') no_document = (JArr 4 [], no_document\<lparr>next_id := 5\<rparr>)
   \<and> arrayStringify (JArr 0 []) no_document = Inr (JStr '''')"
  using arrayParse_empty_string[of no_document 0] by (simp add: no_document_def)

subsection \<open>Validation of vector defaults\<close>

lemma typeof_number: "(typeof v = ''number'') = (case v of JNum n \<Rightarrow> True | _ \<Rightarrow> False)"
  by (cases v) simp_all

lemma typeof_get_prop:
  "(typeof (get_prop (JObj a ps) k) = ''number'') = number_bound (map_of ps k)"
  by (simp add: get_prop_def number_bound_def typeof_number split: option.splits jsval.splits)

lemma number_bound_key: "number_bound (map_of ps k) \<Longrightarrow> k \<in> set (map fst ps)"
  by (auto simp: number_bound_def split: option.splits dest: map_of_SomeD intro: rev_image_eqI)

lemma exact_keys:
  assumes "distinct names" and "set names \<subseteq> set ks" and "length names = n"
  shows "(length (remdups ks) = n) = (set ks = set names)"
proof
  assume "length (remdups ks) = n"
  then have "card (set ks) = card (set names)"
    using assms(1,3) by (simp add: length_remdups_card_conv distinct_card)
  with assms(2) show "set ks = set names"
    by (metis List.finite_set card_subset_eq)
next
  assume "set ks = set names"
  then show "length (remdups ks) = n"
    using assms(1,3) by (simp add: length_remdups_card_conv distinct_card)
qed

lemma coordinate_object_2:
  "isValidDefaultCoordinate (JObj a ps) 2 = vector_shape [''x'', ''y''] (JObj a ps)"
proof (cases "number_bound (map_of ps ''x'') \<and> number_bound (map_of ps ''y'')")
  case True
  then have sub: "set [''x'', ''y''] \<subseteq> set (map fst ps)"
    using number_bound_key by auto
  have "(length (remdups (map fst ps)) = 2) = (set (map fst ps) = set [''x'', ''y''])"
    by (rule exact_keys[OF _ sub]) simp_all
  with True show ?thesis
    by (simp add: isValidDefaultCoordinate_def object_keys_def typeof_get_prop vector_shape_def
        Let_def)
next
  case False
  then show ?thesis
    by (auto simp: isValidDefaultCoordinate_def object_keys_def typeof_get_prop vector_shape_def
        Let_def)
qed

lemma coordinate_object_3:
  "isValidDefaultCoordinate (JObj a ps) 3 = vector_shape [''x'', ''y'', ''z''] (JObj a ps)"
proof (cases "number_bound (map_of ps ''x'') \<and> number_bound (map_of ps ''y'')
    \<and> number_bound (map_of ps ''z'')")
  case True
  then have sub: "set [''x'', ''y'', ''z''] \<subseteq> set (map fst ps)"
    using number_bound_key by auto
  have "(length (remdups (map fst ps)) = 3) = (set (map fst ps) = set [''x'', ''y'', ''z''])"
    by (rule exact_keys[OF _ sub]) simp_all
  with True show ?thesis
    by (simp add: isValidDefaultCoordinate_def object_keys_def typeof_get_prop vector_shape_def
        Let_def)
next
  case False
  then show ?thesis
    by (auto simp: isValidDefaultCoordinate_def object_keys_def typeof_get_prop vector_shape_def
        Let_def)
qed

lemma coordinate_object_4:
  "isValidDefaultCoordinate (JObj a ps) 4 = vector_shape [''x'', ''y'', ''z'', ''w''] (JObj a ps)"
proof (cases "number_bound (map_of ps ''x'') \<and> number_bound (map_of ps ''y'')
    \<and> number_bound (map_of ps ''z'') \<and> number_bound (map_of ps ''w'')")
  case True
  then have sub: "set [''x'', ''y'', ''z'', ''w''] \<subseteq> set (map fst ps)"
    using number_bound_key by auto
  have "(length (remdups (map fst ps)) = 4) = (set (map fst ps) = set [''x'', ''y'', ''z'', ''w''])"
    by (rule exact_keys[OF _ sub]) simp_all
  with True show ?thesis
    by (simp add: isValidDefaultCoordinate_def object_keys_def typeof_get_prop vector_shape_def
        Let_def)
next
  case False
  then show ?thesis
    by (auto simp: isValidDefaultCoordinate_def object_keys_def typeof_get_prop vector_shape_def
        Let_def)
qed

lemma coordinate_other:
  assumes "\<And>a ps. v \<noteq> JObj a ps" and "2 \<le> n"
  shows "isValidDefaultCoordinate v n = (v = JNull)"
  using assms
  by (cases v)
     (auto simp: isValidDefaultCoordinate_def object_keys_def get_prop_def Let_def)

lemma coordinate_any:
  "isValidDefaultCoordinate v 2 = (v = JNull \<or> vector_shape [''x'', ''y''] v)"
  "isValidDefaultCoordinate v 3 = (v = JNull \<or> vector_shape [''x'', ''y'', ''z''] v)"
  "isValidDefaultCoordinate v 4 = (v = JNull \<or> vector_shape [''x'', ''y'', ''z'', ''w''] v)"
proof -
  show "isValidDefaultCoordinate v 2 = (v = JNull \<or> vector_shape [''x'', ''y''] v)"
  proof (cases "\<exists>a ps. v = JObj a ps")
    case True
    then show ?thesis using coordinate_object_2 by auto
  next
    case False
    then show ?thesis using coordinate_other[of v 2] by (auto simp: vector_shape_def split: jsval.splits)
  qed
  show "isValidDefaultCoordinate v 3 = (v = JNull \<or> vector_shape [''x'', ''y'', ''z''] v)"
  proof (cases "\<exists>a ps. v = JObj a ps")
    case True
    then show ?thesis using coordinate_object_3 by auto
  next
    case False
    then show ?thesis using coordinate_other[of v 3] by (auto simp: vector_shape_def split: jsval.splits)
  qed
  show "isValidDefaultCoordinate v 4 = (v = JNull \<or> vector_shape [''x'', ''y'', ''z'', ''w''] v)"
  proof (cases "\<exists>a ps. v = JObj a ps")
    case True
    then show ?thesis using coordinate_object_4 by auto
  next
    case False
    then show ?thesis using coordinate_other[of v 4] by (auto simp: vector_shape_def split: jsval.splits)
  qed
qed

text \<open>
  Claim C6 as stated fails: the validator asks for the \<^verbatim>\<open>typeof\<close> of each component only,
  and \<^verbatim>\<open>NaN\<close> and the infinities are numbers.  It accepts \<^verbatim>\<open>{x: NaN, y: Infinity}\<close> as
  a default of \<^verbatim>\<open>vec2\<close>, though neither component is finite.
\<close>

theorem vec_default_not_finite_counterexample:
  "isValidDefaultValue ''vec2'' (JObj 0 [(''x'', JNum NaN), (''y'', JNum PosInf)])
   \<and> \<not> finite_number (get_prop (JObj 0 [(''x'', JNum NaN), (''y'', JNum PosInf)]) ''x'')
   \<and> \<not> finite_number (get_prop (JObj 0 [(''x'', JNum NaN), (''y'', JNum PosInf)]) ''y'')"
  by (simp add: isValidDefaultValue_def isValidDefaultCoordinate_def object_keys_def get_prop_def
      finite_number_def Let_def)

text \<open>
  Claim C6, amended.  For \<^verbatim>\<open>vec2\<close>, \<^verbatim>\<open>vec3\<close> and \<^verbatim>\<open>vec4\<close> the validator accepts a value
  exactly when it is \<^verbatim>\<open>null\<close> or an object whose own keys are exactly \<^verbatim>\<open>x, y\<close>,
  \<^verbatim>\<open>x, y, z\<close> or \<^verbatim>\<open>x, y, z, w\<close>, each bound to a number (of any kind: \<^verbatim>\<open>NaN\<close> and the
  infinities are numbers).  \<^verbatim>\<open>{x: 0, y: 0}\<close> is no default of \<^verbatim>\<open>vec3\<close>, \<^verbatim>\<open>null\<close> is one.
\<close>

theorem vec_default_validation:
  "isValidDefaultValue ''vec2'' v = (v = JNull \<or> vector_shape [''x'', ''y''] v)
   \<and> isValidDefaultValue ''vec3'' v = (v = JNull \<or> vector_shape [''x'', ''y'', ''z''] v)
   \<and> isValidDefaultValue ''vec4'' v = (v = JNull \<or> vector_shape [''x'', ''y'', ''z'', ''w''] v)
   \<and> (vector_shape names v \<longleftrightarrow>
        (\<exists>a ps. v = JObj a ps \<and> set (map fst ps) = set names
           \<and> (\<forall>k. k \<in> set names \<longrightarrow> (\<exists>n. map_of ps k = Some (JNum n)))))
   \<and> \<not> isValidDefaultValue ''vec3'' (JObj a [(''x'', JNum (Fin 0)), (''y'', JNum (Fin 0))])
   \<and> isValidDefaultValue ''vec3'' JNull"
proof -
  have v2: "isValidDefaultValue ''vec2'' v = isValidDefaultCoordinate v 2"
    and v3: "isValidDefaultValue ''vec3'' v = isValidDefaultCoordinate v 3"
    and v4: "isValidDefaultValue ''vec4'' v = isValidDefaultCoordinate v 4" for v
    by (simp_all add: isValidDefaultValue_def)
  have nb: "number_bound b = (\<exists>n. b = Some (JNum n))" for b
    by (auto simp: number_bound_def split: option.splits jsval.splits)
  have shape: "vector_shape names v \<longleftrightarrow>
        (\<exists>a ps. v = JObj a ps \<and> set (map fst ps) = set names
           \<and> (\<forall>k. k \<in> set names \<longrightarrow> (\<exists>n. map_of ps k = Some (JNum n))))"
    by (cases v) (auto simp: vector_shape_def list_all_iff nb)
  have ex1: "\<not> isValidDefaultValue ''vec3'' (JObj a [(''x'', JNum (Fin 0)), (''y'', JNum (Fin 0))])"
    unfolding v3 coordinate_any by (simp add: vector_shape_def number_bound_def)
  have ex2: "isValidDefaultValue ''vec3'' JNull"
    unfolding v3 coordinate_any by simp
  show ?thesis
    unfolding v2 v3 v4 using coordinate_any[of v] shape ex1[unfolded v3] ex2[unfolded v3] by blast
qed

text \<open>The default of \<^verbatim>\<open>vec4\<close>, an object with a key too many, and a component that is a
  string.\<close>

theorem vec_default_validation_witness:
  "isValidDefaultValue ''vec4''
     (JObj 3 [(''x'', JNum (Fin 0)), (''y'', JNum (Fin 0)), (''z'', JNum (Fin 0)),
              (''w'', JNum (Fin 1))])
   \<and> \<not> isValidDefaultValue ''vec2''
       (JObj 5 [(''x'', JNum (Fin 0)), (''y'', JNum (Fin 0)), (''z'', JNum (Fin 0))])
   \<and> \<not> isValidDefaultValue ''vec2'' (JObj 6 [(''x'', JNum (Fin 0)), (''y'', JStr ''0'')])"
proof -
  have a: "vector_shape [''x'', ''y'', ''z'', ''w'']
     (JObj 3 [(''x'', JNum (Fin 0)), (''y'', JNum (Fin 0)), (''z'', JNum (Fin 0)),
              (''w'', JNum (Fin 1))])"
    by (simp add: vector_shape_def number_bound_def)
  have b: "\<not> vector_shape [''x'', ''y'']
       (JObj 5 [(''x'', JNum (Fin 0)), (''y'', JNum (Fin 0)), (''z'', JNum (Fin 0))])"
  proof -
    have "{''x'', ''y'', ''z''} \<noteq> {''x'', ''y''}"
    proof
      assume e: "{''x'', ''y'', ''z''} = {''x'', ''y''}"
      have "''z'' \<in> {''x'', ''y'', ''z''}" by simp
      with e have "''z'' \<in> {''x'', ''y''}" by (simp only:)
      then show False by simp
    qed
    then show ?thesis by (simp add: vector_shape_def number_bound_def)
  qed
  have c: "\<not> vector_shape [''x'', ''y''] (JObj 6 [(''x'', JNum (Fin 0)), (''y'', JStr ''0'')])"
    by (simp add: vector_shape_def number_bound_def)
  note t4 = vec_default_validation[of "JObj 3 [(''x'', JNum (Fin 0)), (''y'', JNum (Fin 0)),
              (''z'', JNum (Fin 0)), (''w'', JNum (Fin 1))]", THEN conjunct2, THEN conjunct2,
              THEN conjunct1]
  note t2 = vec_default_validation[of "JObj 5 [(''x'', JNum (Fin 0)), (''y'', JNum (Fin 0)),
              (''z'', JNum (Fin 0))]", THEN conjunct1]
  note t2' = vec_default_validation[of "JObj 6 [(''x'', JNum (Fin 0)), (''y'', JStr ''0'')]",
              THEN conjunct1]
  show ?thesis
    unfolding t4 t2 t2' using a b c by simp
qed

subsection \<open>Integers as strings\<close>


















subsection \<open>Round trips\<close>














































text \<open>On \<^verbatim>\<open>null\<close>, \<^verbatim>\<open>selectorStringify\<close> reads \<^verbatim>\<open>null.getAttribute\<close> first and throws,
  where \<^verbatim>\<open>defaultStringify\<close>, to which it hands every value without \<^verbatim>\<open>getAttribute\<close>, and
  \<^verbatim>\<open>selectorAllStringify\<close> give the string \<^verbatim>\<open>null\<close>.\<close>

lemma selectorStringify_null:
  "selectorStringify JNull w = Inl TypeError"
  "defaultStringify JNull w = Inr (JStr ''null'')"
  "selectorAllStringify JNull w = Inr (JStr ''null'')"
  by (simp_all add: selectorStringify_def has_getAttribute_def selectorAllStringify_def
      defaultStringify_simps)




end
